theory Spec2Isabelle
  imports Main "HOL-Library.Multiset"
begin

section \<open>JavaScript values\<close>

text \<open>
  Request bodies and the storage file are JSON, so the values a task field can hold are
  the values that \<open>JSON.parse\<close> returns. A number is an integer that a double
  holds, or one of the two infinities, which \<open>JSON.parse\<close> returns for a number
  literal beyond the range of doubles. Negative zero, which equals zero, is not told
  apart from it. A property that is absent from an object, which JavaScript reads as
  \<open>undefined\<close>, is \<open>None\<close> of \<open>json option\<close>.
\<close>

datatype json =
    JNull
  | JBool bool
  | JNum int
  | JInfinity
  | JNegInfinity
  | JStr string
  | JArr "json list"
  | JObj "(string \<times> json) list"

text \<open>Truthiness, as tested by \<open>!x\<close> and \<open>x || y\<close>.\<close>

fun truthy :: "json \<Rightarrow> bool" where
  "truthy JNull = False"
| "truthy (JBool b) = b"
| "truthy (JNum n) = (n \<noteq> 0)"
| "truthy JInfinity = True"
| "truthy JNegInfinity = True"
| "truthy (JStr s) = (s \<noteq> [])"
| "truthy (JArr xs) = True"
| "truthy (JObj kvs) = True"

fun truthy_opt :: "json option \<Rightarrow> bool" where
  "truthy_opt None = False"
| "truthy_opt (Some v) = truthy v"

text \<open>\<open>x || d\<close>: the left operand when it is truthy, else the right one.\<close>

definition or_else :: "json option \<Rightarrow> json \<Rightarrow> json" where
  "or_else x d = (case x of None \<Rightarrow> d | Some v \<Rightarrow> if truthy v then v else d)"

text \<open>
  \<open>x + 1\<close> on a double that holds an integer \<open>x\<close> that is not negative. Below
  \<open>2^53\<close> the sum is exact. From there on the doubles are the even integers, up
  to \<open>2^54\<close>, and then multiples of 4 or more; the sum is rounded to the nearest double,
  a tie to the one with the even significand: \<open>2^53 + 1\<close> is \<open>2^53\<close>.
\<close>

definition plus_one :: "int \<Rightarrow> int" where
  "plus_one x =
     (if x < 2 ^ 53 then x + 1
      else if x < 2 ^ 54 \<and> x mod 4 = 2 then x + 2
      else x)"

text \<open>
  An exception is a value. The exception that a query or an export can throw is the
  \<open>TypeError\<close> of a conversion to a string; a failure to read or parse the
  storage file is a state of the file, and a failure to write it is a flag of the save.
\<close>

datatype error = TypeError

text \<open>
  Two functions of the runtime are parameters of the model: the date parser
  (\<open>Date.parse\<close>, with \<open>None\<close> for NaN), and the conversion of a number to a
  string for integers of magnitude \<open>10^21\<close> and more, which print with an exponent.
\<close>

record runtime =
  date_parse :: "string \<Rightarrow> int option"
  large_number_string :: "int \<Rightarrow> string"

section \<open>Task.js\<close>

text \<open>
  A task object has six own properties. The constructor destructures an options object:
  \<open>id\<close> and \<open>title\<close> are taken as they are, the four other properties
  have defaults, which apply when the property is \<open>undefined\<close>. The constructor
  documents \<open>id\<close> as a number and \<open>title\<close> as required: in the model
  an options object has an integer id and a title, and may lack the four other
  properties. Nothing checks the value of a property, so every field but the id holds any
  JSON value.
\<close>

record task =
  task_id :: int
  title :: json
  description :: json
  deadline :: json
  priority :: json
  status :: json

record task_options =
  opt_id :: int
  opt_title :: json
  opt_description :: "json option"
  opt_deadline :: "json option"
  opt_priority :: "json option"
  opt_status :: "json option"

definition default_to :: "json option \<Rightarrow> json \<Rightarrow> json" where
  "default_to x d = (case x of None \<Rightarrow> d | Some v \<Rightarrow> v)"

definition Task :: "task_options \<Rightarrow> task" where
  "Task opts =
     \<lparr> task_id = opt_id opts,
       title = opt_title opts,
       description = default_to (opt_description opts) (JStr []),
       deadline = default_to (opt_deadline opts) JNull,
       priority = default_to (opt_priority opts) (JStr ''Low''),
       status = default_to (opt_status opts) (JStr ''ToDo'') \<rparr>"

definition toJSON :: "task \<Rightarrow> task_options" where
  "toJSON t =
     \<lparr> opt_id = task_id t,
       opt_title = title t,
       opt_description = Some (description t),
       opt_deadline = Some (deadline t),
       opt_priority = Some (priority t),
       opt_status = Some (status t) \<rparr>"

section \<open>JSON texts\<close>

text \<open>
  The storage file holds a JSON text. Its numbers are literals: an integer, or a literal
  too large for a double. \<open>JSON.parse\<close> reads such a literal as an infinity;
  \<open>JSON.stringify\<close> writes an infinity as \<open>null\<close>, as JSON has no literal
  for it. Everything else is read and written as it stands.
\<close>

datatype json_text =
    TNull
  | TBool bool
  | TNumber int
  | THuge
  | TNegHuge
  | TString string
  | TArray "json_text list"
  | TObject "(string \<times> json_text) list"

fun JSON_parse :: "json_text \<Rightarrow> json" where
  "JSON_parse TNull = JNull"
| "JSON_parse (TBool b) = JBool b"
| "JSON_parse (TNumber n) = JNum n"
| "JSON_parse THuge = JInfinity"
| "JSON_parse TNegHuge = JNegInfinity"
| "JSON_parse (TString s) = JStr s"
| "JSON_parse (TArray xs) = JArr (map JSON_parse xs)"
| "JSON_parse (TObject kvs) = JObj (map (\<lambda>(k, v). (k, JSON_parse v)) kvs)"

fun JSON_stringify :: "json \<Rightarrow> json_text" where
  "JSON_stringify JNull = TNull"
| "JSON_stringify (JBool b) = TBool b"
| "JSON_stringify (JNum n) = TNumber n"
| "JSON_stringify JInfinity = TNull"
| "JSON_stringify JNegInfinity = TNull"
| "JSON_stringify (JStr s) = TString s"
| "JSON_stringify (JArr xs) = TArray (map JSON_stringify xs)"
| "JSON_stringify (JObj kvs) = TObject (map (\<lambda>(k, v). (k, JSON_stringify v)) kvs)"

text \<open>
  A task in the file is an object of the text. A property with the value
  \<open>undefined\<close> is not written.
\<close>

record stored_task =
  stored_id :: int
  stored_title :: json_text
  stored_description :: "json_text option"
  stored_deadline :: "json_text option"
  stored_priority :: "json_text option"
  stored_status :: "json_text option"

definition parse_task :: "stored_task \<Rightarrow> task_options" where
  "parse_task obj =
     \<lparr> opt_id = stored_id obj,
       opt_title = JSON_parse (stored_title obj),
       opt_description = map_option JSON_parse (stored_description obj),
       opt_deadline = map_option JSON_parse (stored_deadline obj),
       opt_priority = map_option JSON_parse (stored_priority obj),
       opt_status = map_option JSON_parse (stored_status obj) \<rparr>"

definition stringify_task :: "task_options \<Rightarrow> stored_task" where
  "stringify_task obj =
     \<lparr> stored_id = opt_id obj,
       stored_title = JSON_stringify (opt_title obj),
       stored_description = map_option JSON_stringify (opt_description obj),
       stored_deadline = map_option JSON_stringify (opt_deadline obj),
       stored_priority = map_option JSON_stringify (opt_priority obj),
       stored_status = map_option JSON_stringify (opt_status obj) \<rparr>"

section \<open>TaskRepository.js\<close>

subsection \<open>State and persistence\<close>

text \<open>
  The repository holds the array of tasks and the counter for the next id. The location
  of the storage file is fixed when the repository is built; what is stored there is
  passed to the functions that read and write it.
\<close>

record repository =
  tasks :: "task list"
  nextId :: int

text \<open>
  What \<open>load\<close> finds at \<open>tasks.json\<close>: no file, a file whose reading or
  parsing throws, or the text of an array of objects.
\<close>

datatype disk = Missing | Corrupt | Stored "stored_task list"

text \<open>
  \<open>load\<close>: without a file the repository is left as it is; an exception resets it
  to the empty collection with counter 1; otherwise every parsed object goes through the
  constructor and the counter is the \<open>reduce\<close> of \<open>Math.max\<close> over the ids,
  started at 0, plus 1.
\<close>

definition load :: "disk \<Rightarrow> repository \<Rightarrow> repository" where
  "load d r =
     (case d of
        Missing \<Rightarrow> r
      | Corrupt \<Rightarrow> \<lparr> tasks = [], nextId = 1 \<rparr>
      | Stored objs \<Rightarrow>
          (let data = map parse_task objs;
               ts = map Task data;
               maxId = foldl (\<lambda>acc t. max acc (task_id t)) 0 ts
           in \<lparr> tasks = ts, nextId = plus_one maxId \<rparr>))"

text \<open>The constructor starts from the empty collection with counter 1 and loads.\<close>

definition TaskRepository :: "disk \<Rightarrow> repository" where
  "TaskRepository d = load d \<lparr> tasks = [], nextId = 1 \<rparr>"

text \<open>
  \<open>save\<close> writes the text of the serialised tasks; \<open>writable\<close> says whether
  \<open>writeFileSync\<close> succeeds. A failure is logged and swallowed, and the file
  keeps its content.
\<close>

definition save :: "bool \<Rightarrow> repository \<Rightarrow> disk \<Rightarrow> disk" where
  "save writable r d =
     (if writable then Stored (map stringify_task (map toJSON (tasks r))) else d)"

subsection \<open>Mutations\<close>

text \<open>
  The argument of \<open>addTask\<close>. The object literal of \<open>addTask\<close> lists
  \<open>id\<close> first, then spreads the data, then sets \<open>status\<close>: an \<open>id\<close> in
  the data replaces the counter's value, a \<open>status\<close> in the data is replaced.
  The counter is incremented in both cases.
\<close>

record task_data =
  data_id :: "int option"
  data_title :: json
  data_description :: "json option"
  data_deadline :: "json option"
  data_priority :: "json option"
  data_status :: "json option"

definition addTask :: "task_data \<Rightarrow> repository \<Rightarrow> task \<times> repository" where
  "addTask data r =
     (let t = Task \<lparr> opt_id = (case data_id data of None \<Rightarrow> nextId r | Some i \<Rightarrow> i),
                     opt_title = data_title data,
                     opt_description = data_description data,
                     opt_deadline = data_deadline data,
                     opt_priority = data_priority data,
                     opt_status = Some (JStr ''ToDo'') \<rparr>
      in (t, \<lparr> tasks = tasks r @ [t], nextId = plus_one (nextId r) \<rparr>))"

fun findIndex :: "('a \<Rightarrow> bool) \<Rightarrow> 'a list \<Rightarrow> nat option" where
  "findIndex P [] = None"
| "findIndex P (x # xs) = (if P x then Some 0 else map_option Suc (findIndex P xs))"

text \<open>
  The updates object of \<open>updateTask\<close>: a property is present or not. The new task is
  built from the existing one overlaid with the updates, with the existing id last.
\<close>

record task_updates =
  upd_title :: "json option"
  upd_description :: "json option"
  upd_deadline :: "json option"
  upd_priority :: "json option"
  upd_status :: "json option"

definition overlay :: "json \<Rightarrow> json option \<Rightarrow> json" where
  "overlay old new = (case new of None \<Rightarrow> old | Some v \<Rightarrow> v)"

definition updateTask :: "int \<Rightarrow> task_updates \<Rightarrow> repository \<Rightarrow> task option \<times> repository" where
  "updateTask i updates r =
     (case findIndex (\<lambda>t. task_id t = i) (tasks r) of
        None \<Rightarrow> (None, r)
      | Some index \<Rightarrow>
          (let existing = tasks r ! index;
               updated = Task \<lparr> opt_id = task_id existing,
                               opt_title = overlay (title existing) (upd_title updates),
                               opt_description = Some (overlay (description existing) (upd_description updates)),
                               opt_deadline = Some (overlay (deadline existing) (upd_deadline updates)),
                               opt_priority = Some (overlay (priority existing) (upd_priority updates)),
                               opt_status = Some (overlay (status existing) (upd_status updates)) \<rparr>
           in (Some updated, r\<lparr> tasks := (tasks r)[index := updated] \<rparr>)))"

definition deleteTask :: "int \<Rightarrow> repository \<Rightarrow> bool \<times> repository" where
  "deleteTask i r =
     (case findIndex (\<lambda>t. task_id t = i) (tasks r) of
        None \<Rightarrow> (False, r)
      | Some index \<Rightarrow> (True, r\<lparr> tasks := take index (tasks r) @ drop (Suc index) (tasks r) \<rparr>))"

definition markCompleted :: "int \<Rightarrow> repository \<Rightarrow> task option \<times> repository" where
  "markCompleted i r =
     updateTask i \<lparr> upd_title = None, upd_description = None, upd_deadline = None,
                    upd_priority = None, upd_status = Some (JStr ''Completed'') \<rparr> r"

subsection \<open>Strings\<close>

text \<open>
  The conversion of a value to a string, which template literals, property lookups and
  \<open>new Date\<close> apply. A string is itself. An integer below \<open>10^21\<close> in
  magnitude prints in decimal; a larger one is printed by the runtime. An array joins the
  strings of its elements with commas, a \<open>null\<close> element printing as nothing. An
  object parsed from JSON has no method of its own: when it has an own property
  \<open>toString\<close>, that value hides the inherited method, the inherited
  \<open>valueOf\<close> (or an own property of that name) yields no primitive either, and the
  conversion throws a \<open>TypeError\<close>; without such a property the inherited method
  prints \<open>[object Object]\<close>.
\<close>

definition digit_char :: "nat \<Rightarrow> char" where
  "digit_char n = ''0123456789'' ! (n mod 10)"

function digits :: "nat \<Rightarrow> string" where
  "digits n = (if n < 10 then [digit_char n] else digits (n div 10) @ [digit_char n])"
  by pat_completeness auto
termination
  by (relation "measure (\<lambda>n. n)") auto

declare digits.simps [simp del]

definition show_int :: "int \<Rightarrow> string" where
  "show_int i = (if i < 0 then CHR ''-'' # digits (nat (- i)) else digits (nat i))"

definition number_string :: "runtime \<Rightarrow> int \<Rightarrow> string" where
  "number_string rt n =
     (if \<bar>n\<bar> < 10 ^ 21 then show_int n else large_number_string rt n)"

fun join :: "'a list \<Rightarrow> 'a list list \<Rightarrow> 'a list" where
  "join sep [] = []"
| "join sep [x] = x"
| "join sep (x # y # ys) = x @ sep @ join sep (y # ys)"

text \<open>The results of a list of steps, or the exception of the first step that throws.\<close>

fun all_results :: "(error + 'a) list \<Rightarrow> error + 'a list" where
  "all_results [] = Inr []"
| "all_results (Inl e # rs) = Inl e"
| "all_results (Inr v # rs) = (case all_results rs of Inl e \<Rightarrow> Inl e | Inr vs \<Rightarrow> Inr (v # vs))"

fun to_string :: "runtime \<Rightarrow> json \<Rightarrow> error + string" where
  "to_string rt JNull = Inr ''null''"
| "to_string rt (JBool b) = Inr (if b then ''true'' else ''false'')"
| "to_string rt (JNum n) = Inr (number_string rt n)"
| "to_string rt JInfinity = Inr ''Infinity''"
| "to_string rt JNegInfinity = Inr ''-Infinity''"
| "to_string rt (JStr s) = Inr s"
| "to_string rt (JArr xs) =
     (case all_results (map (\<lambda>x. if x = JNull then Inr [] else to_string rt x) xs) of
        Inl e \<Rightarrow> Inl e
      | Inr strings \<Rightarrow> Inr (join '','' strings))"
| "to_string rt (JObj kvs) =
     (if ''toString'' \<in> fst ` set kvs then Inl TypeError else Inr ''[object Object]'')"

subsection \<open>Dates and the comparison functions\<close>

text \<open>
  \<open>new Date(v)\<close> converted to a number is the time value of \<open>v\<close> in
  milliseconds, or NaN (\<open>None\<close>) for an invalid date. A number is its own time value
  within the range of dates; a string goes through the date parser of the runtime; an
  array or object is converted to a string, which may throw, and that string is parsed.
\<close>

definition time_clip :: "int \<Rightarrow> int option" where
  "time_clip n = (if \<bar>n\<bar> \<le> 8640000000000000 then Some n else None)"

fun time_value :: "runtime \<Rightarrow> json \<Rightarrow> error + int option" where
  "time_value rt JNull = Inr (Some 0)"
| "time_value rt (JBool b) = Inr (Some (if b then 1 else 0))"
| "time_value rt (JNum n) = Inr (time_clip n)"
| "time_value rt JInfinity = Inr None"
| "time_value rt JNegInfinity = Inr None"
| "time_value rt (JStr s) = Inr (date_parse rt s)"
| "time_value rt (JArr xs) =
     (case to_string rt (JArr xs) of Inl e \<Rightarrow> Inl e | Inr s \<Rightarrow> Inr (date_parse rt s))"
| "time_value rt (JObj kvs) =
     (case to_string rt (JObj kvs) of Inl e \<Rightarrow> Inl e | Inr s \<Rightarrow> Inr (date_parse rt s))"

text \<open>A comparison function returns a number, where \<open>None\<close> is NaN, or throws.\<close>

definition minus_num :: "int option \<Rightarrow> int option \<Rightarrow> int option" where
  "minus_num a b = (case a of None \<Rightarrow> None | Some x \<Rightarrow> (case b of None \<Rightarrow> None | Some y \<Rightarrow> Some (x - y)))"

definition compare_deadline :: "runtime \<Rightarrow> task \<Rightarrow> task \<Rightarrow> error + int option" where
  "compare_deadline rt a b =
     (if \<not> truthy (deadline a) then Inr (Some 1)
      else if \<not> truthy (deadline b) then Inr (Some (- 1))
      else (case time_value rt (deadline a) of
              Inl e \<Rightarrow> Inl e
            | Inr x \<Rightarrow> (case time_value rt (deadline b) of
                          Inl e \<Rightarrow> Inl e
                        | Inr y \<Rightarrow> Inr (minus_num x y))))"

text \<open>
  \<open>order[p]\<close> converts \<open>p\<close> to a string and looks it up among the keys
  \<open>High\<close>, \<open>Medium\<close>, \<open>Low\<close>; any other key gives a value that is not a
  number.
\<close>

definition order_of :: "runtime \<Rightarrow> json \<Rightarrow> error + int option" where
  "order_of rt p =
     (case to_string rt p of
        Inl e \<Rightarrow> Inl e
      | Inr k \<Rightarrow>
          Inr (if k = ''High'' then Some 0
               else if k = ''Medium'' then Some 1
               else if k = ''Low'' then Some 2
               else None))"

definition compare_priority :: "runtime \<Rightarrow> task \<Rightarrow> task \<Rightarrow> error + int option" where
  "compare_priority rt a b =
     (case order_of rt (priority a) of
        Inl e \<Rightarrow> Inl e
      | Inr x \<Rightarrow> (case order_of rt (priority b) of
                    Inl e \<Rightarrow> Inl e
                  | Inr y \<Rightarrow> Inr (minus_num x y)))"

subsection \<open>Sorting\<close>

text \<open>
  \<open>Array.prototype.sort\<close> is part of the runtime, not of the repository. It reads a
  NaN from the comparison function as 0, and an exception of the comparison function ends
  it. It is modelled as binary insertion sort: each element in turn is the pivot, a
  binary search over the sorted prefix compares the pivot with the middle element and
  continues to the left when the result is negative and to the right otherwise, and the
  pivot is inserted where the search ends.
\<close>

definition nan_to_zero :: "int option \<Rightarrow> int" where
  "nan_to_zero v = (case v of None \<Rightarrow> 0 | Some n \<Rightarrow> n)"

definition sort_compare :: "('a \<Rightarrow> 'a \<Rightarrow> error + int option) \<Rightarrow> 'a \<Rightarrow> 'a \<Rightarrow> error + int" where
  "sort_compare comparefn x y =
     (case comparefn x y of Inl e \<Rightarrow> Inl e | Inr v \<Rightarrow> Inr (nan_to_zero v))"

function bsearch :: "('a \<Rightarrow> 'a \<Rightarrow> error + int) \<Rightarrow> 'a \<Rightarrow> 'a list \<Rightarrow> nat \<Rightarrow> nat \<Rightarrow> error + nat" where
  "bsearch cmp pivot xs left right =
     (if left < right
      then (let mid = left + (right - left) div 2
            in case cmp pivot (xs ! mid) of
                 Inl e \<Rightarrow> Inl e
               | Inr order \<Rightarrow>
                   if order < 0
                   then bsearch cmp pivot xs left mid
                   else bsearch cmp pivot xs (Suc mid) right)
      else Inr left)"
  by pat_completeness auto
termination
  by (relation "measure (\<lambda>(cmp, pivot, xs, left, right). right - left)") auto

declare bsearch.simps [simp del]

definition binary_insert :: "('a \<Rightarrow> 'a \<Rightarrow> error + int) \<Rightarrow> 'a list \<Rightarrow> 'a \<Rightarrow> error + 'a list" where
  "binary_insert cmp xs pivot =
     (case bsearch cmp pivot xs 0 (length xs) of
        Inl e \<Rightarrow> Inl e
      | Inr k \<Rightarrow> Inr (take k xs @ pivot # drop k xs))"

fun insert_all :: "('a \<Rightarrow> 'a \<Rightarrow> error + int) \<Rightarrow> 'a list \<Rightarrow> 'a list \<Rightarrow> error + 'a list" where
  "insert_all cmp acc [] = Inr acc"
| "insert_all cmp acc (x # xs) =
     (case binary_insert cmp acc x of
        Inl e \<Rightarrow> Inl e
      | Inr acc' \<Rightarrow> insert_all cmp acc' xs)"

definition Array_sort :: "('a \<Rightarrow> 'a \<Rightarrow> error + int option) \<Rightarrow> 'a list \<Rightarrow> error + 'a list" where
  "Array_sort comparefn xs = insert_all (sort_compare comparefn) [] xs"

subsection \<open>Queries\<close>

record query =
  sortBy :: "string option"
  filter_by :: "string option"

definition apply_filter :: "string option \<Rightarrow> task list \<Rightarrow> task list" where
  "apply_filter f ts =
     (case f of
        None \<Rightarrow> ts
      | Some name \<Rightarrow>
          if name = ''completed'' then filter (\<lambda>t. status t = JStr ''Completed'') ts
          else if name = ''not-completed'' then filter (\<lambda>t. status t \<noteq> JStr ''Completed'') ts
          else if name = ''high-priority'' then filter (\<lambda>t. priority t = JStr ''High'') ts
          else ts)"

definition apply_sort :: "runtime \<Rightarrow> string option \<Rightarrow> task list \<Rightarrow> error + task list" where
  "apply_sort rt s ts =
     (case s of
        None \<Rightarrow> Inr ts
      | Some name \<Rightarrow>
          if name = ''deadline'' then Array_sort (compare_deadline rt) ts
          else if name = ''priority'' then Array_sort (compare_priority rt) ts
          else Inr ts)"

definition getTasks :: "runtime \<Rightarrow> query \<Rightarrow> repository \<Rightarrow> error + task list" where
  "getTasks rt q r = apply_sort rt (sortBy q) (apply_filter (filter_by q) (tasks r))"

definition no_query :: query where
  "no_query = \<lparr> sortBy = None, filter_by = None \<rparr>"

section \<open>TaskController.js\<close>

text \<open>
  A handler reads the properties of the request body that it names and ignores the others.
  A reply is a status code with a payload; a task in a payload is the object handed to
  the serialiser of the reply. The route handlers of \<open>server.js\<close> repeat the same
  steps on the same repository; a create request without a JSON body is answered there
  like one without a title, and an exception of a handler is answered there with status
  500.
\<close>

record request_body =
  body_title :: "json option"
  body_description :: "json option"
  body_deadline :: "json option"
  body_priority :: "json option"
  body_status :: "json option"

datatype payload =
    TaskBody task_options
  | TaskList "task_options list"
  | Message string
  | TextBody string
  | NoBody

datatype response = Response nat payload

definition listTasks :: "runtime \<Rightarrow> query \<Rightarrow> repository \<Rightarrow> response" where
  "listTasks rt q r =
     (case getTasks rt q r of
        Inl e \<Rightarrow> Response 500 (Message ''Server error'')
      | Inr ts \<Rightarrow> Response 200 (TaskList (map toJSON ts)))"

definition allowedPriorities :: "json list" where
  "allowedPriorities = [JStr ''High'', JStr ''Medium'', JStr ''Low'']"

text \<open>\<open>includes\<close> on an array of strings: true for a string equal to one of them.\<close>

definition includes_value :: "json list \<Rightarrow> json option \<Rightarrow> bool" where
  "includes_value xs v = (case v of None \<Rightarrow> False | Some x \<Rightarrow> x \<in> set xs)"

definition createTask :: "request_body \<Rightarrow> repository \<Rightarrow> response \<times> repository" where
  "createTask body r =
     (case body_title body of
        None \<Rightarrow> (Response 400 (Message ''Title is required''), r)
      | Some t \<Rightarrow>
          if \<not> truthy t then (Response 400 (Message ''Title is required''), r)
          else
            (let normalizedPriority =
                   (if includes_value allowedPriorities (body_priority body)
                    then body_priority body else Some (JStr ''Low''));
                 (newTask, r') =
                   addTask \<lparr> data_id = None,
                             data_title = t,
                             data_description = Some (or_else (body_description body) (JStr [])),
                             data_deadline = Some (or_else (body_deadline body) JNull),
                             data_priority = normalizedPriority,
                             data_status = None \<rparr> r
             in (Response 201 (TaskBody (toJSON newTask)), r')))"

definition updates_of :: "request_body \<Rightarrow> task_updates" where
  "updates_of body =
     \<lparr> upd_title = body_title body,
       upd_description = body_description body,
       upd_deadline = body_deadline body,
       upd_priority = body_priority body,
       upd_status = body_status body \<rparr>"

definition updateTask_handler :: "int \<Rightarrow> request_body \<Rightarrow> repository \<Rightarrow> response \<times> repository" where
  "updateTask_handler i body r =
     (case updateTask i (updates_of body) r of
        (None, r') \<Rightarrow> (Response 404 (Message ''Task not found''), r')
      | (Some updated, r') \<Rightarrow> (Response 200 (TaskBody (toJSON updated)), r'))"

definition deleteTask_handler :: "int \<Rightarrow> repository \<Rightarrow> response \<times> repository" where
  "deleteTask_handler i r =
     (case deleteTask i r of
        (False, r') \<Rightarrow> (Response 404 (Message ''Task not found''), r')
      | (True, r') \<Rightarrow> (Response 204 NoBody, r'))"

definition markCompleted_handler :: "int \<Rightarrow> repository \<Rightarrow> response \<times> repository" where
  "markCompleted_handler i r =
     (case markCompleted i r of
        (None, r') \<Rightarrow> (Response 404 (Message ''Task not found''), r')
      | (Some updated, r') \<Rightarrow> (Response 200 (TaskBody (toJSON updated)), r'))"

text \<open>
  The export renders every task of \<open>getTasks()\<close>, called without options, with a
  template of six segments that each end in a line feed, and joins the renderings with a
  line feed. The template converts the id and the five fields to strings, in that order;
  a conversion that throws ends the export, which \<open>server.js\<close> answers with status
  500. The text is the reply; it is also written to \<open>tasks_export.txt\<close>, which the
  model leaves out.
\<close>

definition newline :: char where
  "newline = CHR 0x0A"

definition export_block :: "runtime \<Rightarrow> task \<Rightarrow> error + string" where
  "export_block rt t =
     (case to_string rt (title t) of Inl e \<Rightarrow> Inl e | Inr title_string \<Rightarrow>
      case to_string rt (description t) of Inl e \<Rightarrow> Inl e | Inr description_string \<Rightarrow>
      case to_string rt (deadline t) of Inl e \<Rightarrow> Inl e | Inr deadline_string \<Rightarrow>
      case to_string rt (priority t) of Inl e \<Rightarrow> Inl e | Inr priority_string \<Rightarrow>
      case to_string rt (status t) of Inl e \<Rightarrow> Inl e | Inr status_string \<Rightarrow>
        Inr (''ID: '' @ number_string rt (task_id t) @ [newline] @
             ''Title: '' @ title_string @ [newline] @
             ''Description: '' @ description_string @ [newline] @
             ''Deadline: '' @ deadline_string @ [newline] @
             ''Priority: '' @ priority_string @ [newline] @
             ''Status: '' @ status_string @ [newline]))"

definition export_text :: "runtime \<Rightarrow> repository \<Rightarrow> error + string" where
  "export_text rt r =
     (case getTasks rt no_query r of
        Inl e \<Rightarrow> Inl e
      | Inr ts \<Rightarrow>
          (case all_results (map (export_block rt) ts) of
             Inl e \<Rightarrow> Inl e
           | Inr lines \<Rightarrow> Inr (join [newline] lines)))"

definition exportTasks :: "runtime \<Rightarrow> repository \<Rightarrow> response" where
  "exportTasks rt r =
     (case export_text rt r of
        Inl e \<Rightarrow> Response 500 (Message ''Server error'')
      | Inr text \<Rightarrow> Response 200 (TextBody text))"

text \<open>
  The lines of a text are what \<open>split\<close> at the line feed returns. A value is
  printable when its conversion to a string does not throw; the six lines of a printable
  task in the export are its labelled fields.
\<close>

fun split_on :: "'a \<Rightarrow> 'a list \<Rightarrow> 'a list list" where
  "split_on c [] = [[]]"
| "split_on c (x # xs) =
     (if x = c then [] # split_on c xs
      else (case split_on c xs of [] \<Rightarrow> [[x]] | l # ls \<Rightarrow> (x # l) # ls))"

definition printable :: "runtime \<Rightarrow> json \<Rightarrow> bool" where
  "printable rt v = (case to_string rt v of Inl e \<Rightarrow> False | Inr s \<Rightarrow> True)"

definition task_printable :: "runtime \<Rightarrow> task \<Rightarrow> bool" where
  "task_printable rt t \<longleftrightarrow>
     printable rt (title t) \<and> printable rt (description t) \<and> printable rt (deadline t)
     \<and> printable rt (priority t) \<and> printable rt (status t)"

definition text_of :: "runtime \<Rightarrow> json \<Rightarrow> string" where
  "text_of rt v = (case to_string rt v of Inl e \<Rightarrow> [] | Inr s \<Rightarrow> s)"

definition export_fields :: "runtime \<Rightarrow> task \<Rightarrow> string list" where
  "export_fields rt t =
     [ ''ID: '' @ number_string rt (task_id t),
       ''Title: '' @ text_of rt (title t),
       ''Description: '' @ text_of rt (description t),
       ''Deadline: '' @ text_of rt (deadline t),
       ''Priority: '' @ text_of rt (priority t),
       ''Status: '' @ text_of rt (status t) ]"

section \<open>The running system\<close>

text \<open>
  \<open>server.js\<close> builds one repository from the storage file when the process
  starts, serves requests on it, and saves it when the process is told to stop. A run of
  the system is a sequence of operations on the repository and the file; it yields the ids
  of the tasks it created, in order. The operation \<open>Persist_initialize\<close> is a save
  whose write succeeds, followed by the construction of a new repository from the file.
\<close>

record system =
  repo :: repository
  tasksFile :: disk

datatype op =
    Create request_body
  | Update int request_body
  | Delete int
  | Complete int
  | Persist_initialize

definition boot :: "disk \<Rightarrow> system" where
  "boot d = \<lparr> repo = TaskRepository d, tasksFile = d \<rparr>"

definition created_id :: "response \<Rightarrow> int option" where
  "created_id res =
     (case res of
        Response code (TaskBody obj) \<Rightarrow> if code = 201 then Some (opt_id obj) else None
      | Response code _ \<Rightarrow> None)"

definition persist_initialize :: "system \<Rightarrow> system" where
  "persist_initialize s =
     (let d = save True (repo s) (tasksFile s)
      in \<lparr> repo = TaskRepository d, tasksFile = d \<rparr>)"

fun apply_op :: "op \<Rightarrow> system \<Rightarrow> int option \<times> system" where
  "apply_op (Create body) s =
     (let (res, r') = createTask body (repo s) in (created_id res, s\<lparr> repo := r' \<rparr>))"
| "apply_op (Update i body) s = (None, s\<lparr> repo := snd (updateTask_handler i body (repo s)) \<rparr>)"
| "apply_op (Delete i) s = (None, s\<lparr> repo := snd (deleteTask_handler i (repo s)) \<rparr>)"
| "apply_op (Complete i) s = (None, s\<lparr> repo := snd (markCompleted_handler i (repo s)) \<rparr>)"
| "apply_op Persist_initialize s = (None, persist_initialize s)"

fun run :: "op list \<Rightarrow> system \<Rightarrow> int list \<times> system" where
  "run [] s = ([], s)"
| "run (x # xs) s =
     (let (created, s') = apply_op x s;
          (ids, s'') = run xs s'
      in ((case created of None \<Rightarrow> ids | Some i \<Rightarrow> i # ids), s''))"

section \<open>The order by deadline\<close>

text \<open>
  A task has a deadline when its deadline is truthy, which is what the comparison function
  tests. Its timestamp is the time value of its deadline, if that is a number. Two tasks
  are in deadline order when the second has no deadline, or both have one and the
  timestamp of the first is a number not above that of the second. A task is parseable
  when it has no deadline or its deadline has a time value that is a number.
\<close>

definition has_deadline :: "task \<Rightarrow> bool" where
  "has_deadline t = truthy (deadline t)"

definition timestamp :: "runtime \<Rightarrow> task \<Rightarrow> int option" where
  "timestamp rt t = (case time_value rt (deadline t) of Inl e \<Rightarrow> None | Inr v \<Rightarrow> v)"

definition in_deadline_order :: "runtime \<Rightarrow> task \<Rightarrow> task \<Rightarrow> bool" where
  "in_deadline_order rt a b =
     (if has_deadline b
      then has_deadline a \<and>
           (case timestamp rt a of
              None \<Rightarrow> False
            | Some x \<Rightarrow> (case timestamp rt b of None \<Rightarrow> False | Some y \<Rightarrow> x \<le> y))
      else True)"

definition parseable :: "runtime \<Rightarrow> task \<Rightarrow> bool" where
  "parseable rt t =
     (if has_deadline t
      then (case time_value rt (deadline t) of Inl e \<Rightarrow> False | Inr v \<Rightarrow> v \<noteq> None)
      else True)"

text \<open>The number that the sort reads from the comparison of two parseable tasks.\<close>

definition deadline_cmp :: "runtime \<Rightarrow> task \<Rightarrow> task \<Rightarrow> int" where
  "deadline_cmp rt x y =
     (case sort_compare (compare_deadline rt) x y of Inl e \<Rightarrow> 0 | Inr n \<Rightarrow> n)"

section \<open>Well-formed repositories and storable values\<close>

text \<open>
  The ids of a well-formed repository are distinct, at least 1 and below the counter.
  A value is storable when no infinity occurs in it.
\<close>

definition repo_ok :: "repository \<Rightarrow> bool" where
  "repo_ok r \<longleftrightarrow>
     distinct (map task_id (tasks r)) \<and> 1 \<le> nextId r
     \<and> (\<forall>t\<in>set (tasks r). 1 \<le> task_id t \<and> task_id t < nextId r)"

fun storable :: "json \<Rightarrow> bool" where
  "storable JNull = True"
| "storable (JBool b) = True"
| "storable (JNum n) = True"
| "storable JInfinity = False"
| "storable JNegInfinity = False"
| "storable (JStr s) = True"
| "storable (JArr xs) = (\<forall>x\<in>set xs. storable x)"
| "storable (JObj kvs) = (\<forall>kv\<in>set kvs. storable (snd kv))"

definition task_storable :: "task \<Rightarrow> bool" where
  "task_storable t \<longleftrightarrow>
     storable (title t) \<and> storable (description t) \<and> storable (deadline t)
     \<and> storable (priority t) \<and> storable (status t)"

section \<open>Example inputs\<close>

definition body_urgent :: request_body where
  "body_urgent =
     \<lparr> body_title = Some (JStr ''Buy milk''), body_description = None, body_deadline = None,
       body_priority = Some (JStr ''Urgent''), body_status = Some (JStr ''Completed'') \<rparr>"

definition body_untitled :: request_body where
  "body_untitled =
     \<lparr> body_title = None, body_description = Some (JStr ''no title''), body_deadline = None,
       body_priority = Some (JStr ''High''), body_status = None \<rparr>"

definition task_milk :: task where
  "task_milk = \<lparr> task_id = 1, title = JStr ''Buy milk'', description = JStr [],
                 deadline = JStr ''2025-01-02'', priority = JStr ''High'', status = JStr ''ToDo'' \<rparr>"

definition task_report :: task where
  "task_report = \<lparr> task_id = 2, title = JStr ''Write report'', description = JStr ''quarterly'',
                 deadline = JNull, priority = JStr ''Medium'', status = JStr ''Completed'' \<rparr>"

definition repo_two :: repository where
  "repo_two = \<lparr> tasks = [task_milk, task_report], nextId = 3 \<rparr>"

definition body_retitle :: request_body where
  "body_retitle =
     \<lparr> body_title = Some (JStr ''Buy oat milk''), body_description = Some (JStr ''two litres''),
       body_deadline = None, body_priority = None, body_status = None \<rparr>"

definition repo_one :: repository where
  "repo_one = \<lparr> tasks = [task_milk], nextId = 2 \<rparr>"

definition ops_session :: "op list" where
  "ops_session = [Create body_urgent, Create body_urgent, Delete 2, Create body_urgent]"

definition ops_reuse :: "op list" where
  "ops_reuse =
     [Create body_urgent, Create body_urgent, Delete 2, Persist_initialize, Create body_urgent]"

definition by_deadline :: query where
  "by_deadline = \<lparr> sortBy = Some ''deadline'', filter_by = None \<rparr>"

text \<open>
  A date parser for the examples. It gives the time values of two dates, midnight UTC,
  and rejects every other string, among them the one deadline of the examples that is
  not a date.
\<close>

definition sample_dates :: "string \<Rightarrow> int option" where
  "sample_dates s =
     (if s = ''2025-01-01'' then Some 1735689600000
      else if s = ''2025-01-02'' then Some 1735776000000
      else None)"

text \<open>
  No example holds a number of magnitude \<open>10^21\<close> or more, so the runtime's
  printer of such numbers is never called.
\<close>

definition sample_runtime :: runtime where
  "sample_runtime = \<lparr> date_parse = sample_dates, large_number_string = (\<lambda>n. []) \<rparr>"

definition task_plan :: task where
  "task_plan = \<lparr> task_id = 3, title = JStr ''Plan trip'', description = JStr [],
                 deadline = JStr ''tomorrow'', priority = JStr ''Low'', status = JStr ''ToDo'' \<rparr>"

definition task_call :: task where
  "task_call = \<lparr> task_id = 4, title = JStr ''Call bank'', description = JStr [],
                 deadline = JStr ''2025-01-01'', priority = JStr ''Low'', status = JStr ''ToDo'' \<rparr>"

definition repo_dated :: repository where
  "repo_dated = \<lparr> tasks = [task_report, task_milk, task_call], nextId = 5 \<rparr>"

definition repo_unparseable :: repository where
  "repo_unparseable = \<lparr> tasks = [task_milk, task_plan, task_call], nextId = 5 \<rparr>"


text \<open>
  A file with one task whose id is \<open>2^53 - 1\<close>, the largest integer below which
  the doubles count in steps of 1.
\<close>

definition file_at_limit :: disk where
  "file_at_limit =
     Stored [\<lparr> stored_id = 9007199254740991, stored_title = TString ''Last'',
               stored_description = Some (TString []), stored_deadline = Some TNull,
               stored_priority = Some (TString ''Low''), stored_status = Some (TString ''ToDo'') \<rparr>]"

definition ops_twice :: "op list" where
  "ops_twice = [Create body_urgent, Create body_urgent]"

text \<open>
  A request whose description is the number literal \<open>1e999\<close>, which the parser of
  the request body reads as infinity, and the repository after that request.
\<close>

definition body_infinite :: request_body where
  "body_infinite =
     \<lparr> body_title = Some (JStr ''Count stars''), body_description = Some JInfinity,
       body_deadline = None, body_priority = None, body_status = None \<rparr>"

definition repo_infinite :: repository where
  "repo_infinite = snd (createTask body_infinite (TaskRepository Missing))"

text \<open>
  A request whose title is the object \<open>{"toString": 1}\<close>, and the repository
  after that request.
\<close>

definition body_object_title :: request_body where
  "body_object_title =
     \<lparr> body_title = Some (JObj [(''toString'', JNum 1)]), body_description = None,
       body_deadline = None, body_priority = None, body_status = None \<rparr>"

definition repo_unprintable :: repository where
  "repo_unprintable = snd (createTask body_object_title (TaskRepository Missing))"

section \<open>Creating tasks\<close>

lemma truthy_optE:
  assumes "truthy_opt x"
  obtains t where "x = Some t" and "truthy t"
  using assms by (cases x) simp_all

lemma createTask_accepts:
  assumes "body_title body = Some t" and "truthy t"
  shows "createTask body r =
     (let new = \<lparr> task_id = nextId r, title = t,
                   description = or_else (body_description body) (JStr []),
                   deadline = or_else (body_deadline body) JNull,
                   priority = (if includes_value allowedPriorities (body_priority body)
                               then default_to (body_priority body) (JStr ''Low'') else JStr ''Low''),
                   status = JStr ''ToDo'' \<rparr>
      in (Response 201 (TaskBody (toJSON new)), \<lparr> tasks = tasks r @ [new], nextId = plus_one (nextId r) \<rparr>))"
  using assms
  by (simp add: createTask_def addTask_def Task_def default_to_def Let_def)

lemma createTask_rejects:
  assumes "\<not> truthy_opt (body_title body)"
  shows "createTask body r = (Response 400 (Message ''Title is required''), r)"
  using assms by (cases "body_title body") (simp_all add: createTask_def)

text \<open>
  Claim C2. A create request with a title is answered with the created task, and the
  priority of that task is one of High, Medium and Low: the priority of the request when
  that is one of the three strings, and Low when the request has no priority or another
  value.
\<close>

theorem createTask_priority_normalised:
  assumes "truthy_opt (body_title body)"
  shows "\<exists>t. createTask body r =
            (Response 201 (TaskBody (toJSON t)), \<lparr> tasks = tasks r @ [t], nextId = plus_one (nextId r) \<rparr>)
          \<and> priority t \<in> {JStr ''High'', JStr ''Medium'', JStr ''Low''}
          \<and> (body_priority body \<in> {Some (JStr ''High''), Some (JStr ''Medium''), Some (JStr ''Low'')}
               \<longrightarrow> body_priority body = Some (priority t))
          \<and> (body_priority body \<notin> {Some (JStr ''High''), Some (JStr ''Medium''), Some (JStr ''Low'')}
               \<longrightarrow> priority t = JStr ''Low'')"
proof -
  from assms obtain ti where ti: "body_title body = Some ti" "truthy ti"
    by (rule truthy_optE)
  show ?thesis
    unfolding createTask_accepts [OF ti] Let_def
    by (rule exI, rule conjI, rule refl)
       (auto simp: includes_value_def allowedPriorities_def default_to_def split: option.splits)
qed

theorem createTask_priority_normalised_witness:
  "truthy_opt (body_title body_urgent)
   \<and> body_priority body_urgent \<notin> {Some (JStr ''High''), Some (JStr ''Medium''), Some (JStr ''Low'')}
   \<and> (\<exists>t. createTask body_urgent (TaskRepository Missing) =
            (Response 201 (TaskBody (toJSON t)), \<lparr> tasks = [t], nextId = 2 \<rparr>)
          \<and> priority t = JStr ''Low'')"
proof -
  have h: "truthy_opt (body_title body_urgent)"
    by (simp add: body_urgent_def)
  have n: "body_priority body_urgent \<notin> {Some (JStr ''High''), Some (JStr ''Medium''), Some (JStr ''Low'')}"
    by (simp add: body_urgent_def)
  from createTask_priority_normalised [OF h, of "TaskRepository Missing"] n
  show ?thesis using h
    by (auto simp: TaskRepository_def load_def plus_one_def)
qed

text \<open>
  Claim C3. A create request whose title is absent or the empty string is answered with
  status 400 and the message that a title is required, not with a task, and the
  repository after the call is the repository before it.
\<close>

theorem createTask_requires_title:
  assumes "body_title body = None \<or> body_title body = Some (JStr [])"
  shows "createTask body r = (Response 400 (Message ''Title is required''), r)"
  using assms by (intro createTask_rejects) auto

theorem createTask_requires_title_witness:
  "body_title body_untitled = None
   \<and> createTask body_untitled (TaskRepository Missing)
       = (Response 400 (Message ''Title is required''), \<lparr> tasks = [], nextId = 1 \<rparr>)"
proof -
  have h: "body_title body_untitled = None \<or> body_title body_untitled = Some (JStr [])"
    by (simp add: body_untitled_def)
  from createTask_requires_title [OF h, of "TaskRepository Missing"]
  show ?thesis
    by (simp add: body_untitled_def TaskRepository_def load_def)
qed

text \<open>
  Claim C4. The task that \<open>addTask\<close> builds has status ToDo whatever status its
  data carry, and a create request with a title is answered with a created task of status
  ToDo whatever status the request supplies.
\<close>

theorem created_status_is_ToDo:
  "status (fst (addTask data r)) = JStr ''ToDo''
   \<and> (truthy_opt (body_title body) \<longrightarrow>
        (\<exists>t. createTask body r =
               (Response 201 (TaskBody (toJSON t)), \<lparr> tasks = tasks r @ [t], nextId = plus_one (nextId r) \<rparr>)
             \<and> status t = JStr ''ToDo''))"
proof (intro conjI impI)
  show "status (fst (addTask data r)) = JStr ''ToDo''"
    by (simp add: addTask_def Task_def default_to_def Let_def)
next
  assume "truthy_opt (body_title body)"
  then obtain ti where ti: "body_title body = Some ti" "truthy ti"
    by (rule truthy_optE)
  show "\<exists>t. createTask body r =
               (Response 201 (TaskBody (toJSON t)), \<lparr> tasks = tasks r @ [t], nextId = plus_one (nextId r) \<rparr>)
             \<and> status t = JStr ''ToDo''"
    unfolding createTask_accepts [OF ti] Let_def
    by (rule exI, rule conjI, rule refl) simp
qed

theorem created_status_is_ToDo_witness:
  "truthy_opt (body_title body_urgent)
   \<and> body_status body_urgent = Some (JStr ''Completed'')
   \<and> (\<exists>t. createTask body_urgent (TaskRepository Missing) =
            (Response 201 (TaskBody (toJSON t)), \<lparr> tasks = [t], nextId = 2 \<rparr>)
          \<and> status t = JStr ''ToDo'')"
proof -
  have h: "truthy_opt (body_title body_urgent)"
    by (simp add: body_urgent_def)
  have s: "body_status body_urgent = Some (JStr ''Completed'')"
    by (simp add: body_urgent_def)
  from created_status_is_ToDo [of _ "TaskRepository Missing" body_urgent] h s
  show ?thesis
    by (auto simp: TaskRepository_def load_def plus_one_def)
qed

section \<open>Updating and deleting tasks\<close>

lemma findIndex_None: "findIndex P xs = None \<longleftrightarrow> (\<forall>x\<in>set xs. \<not> P x)"
  by (induction xs) auto

lemma findIndex_Some:
  "findIndex P xs = Some k \<Longrightarrow> k < length xs \<and> P (xs ! k) \<and> (\<forall>j<k. \<not> P (xs ! j))"
proof (induction xs arbitrary: k)
  case Nil
  then show ?case by simp
next
  case (Cons x xs)
  show ?case
  proof (cases "P x")
    case True
    with Cons.prems show ?thesis by simp
  next
    case False
    with Cons.prems obtain k' where k': "findIndex P xs = Some k'" "k = Suc k'"
      by auto
    from Cons.IH [OF k'(1)] False k'(2) show ?thesis
      by (auto simp: less_Suc_eq_0_disj)
  qed
qed

lemma findIndex_present:
  assumes "x \<in> set xs" and "P x"
  obtains k where "findIndex P xs = Some k"
  using assms findIndex_None [of P xs] by (cases "findIndex P xs") auto

lemma updateTask_found:
  assumes "findIndex (\<lambda>t. task_id t = i) (tasks r) = Some k"
  shows "updateTask i u r =
     (let old = tasks r ! k;
          new = \<lparr> task_id = task_id old,
                  title = default_to (upd_title u) (title old),
                  description = default_to (upd_description u) (description old),
                  deadline = default_to (upd_deadline u) (deadline old),
                  priority = default_to (upd_priority u) (priority old),
                  status = default_to (upd_status u) (status old) \<rparr>
      in (Some new, r\<lparr> tasks := (tasks r)[k := new] \<rparr>))"
  using assms
  by (simp add: updateTask_def Task_def overlay_def default_to_def Let_def split: option.splits)

lemma updateTask_missing:
  assumes "i \<notin> task_id ` set (tasks r)"
  shows "updateTask i u r = (None, r)"
proof -
  from assms have "findIndex (\<lambda>t. task_id t = i) (tasks r) = None"
    by (auto simp: findIndex_None)
  then show ?thesis by (simp add: updateTask_def)
qed

lemma deleteTask_missing:
  assumes "i \<notin> task_id ` set (tasks r)"
  shows "deleteTask i r = (False, r)"
proof -
  from assms have "findIndex (\<lambda>t. task_id t = i) (tasks r) = None"
    by (auto simp: findIndex_None)
  then show ?thesis by (simp add: deleteTask_def)
qed

text \<open>
  Claim C6. For an id that no task of the collection has, \<open>updateTask\<close> and
  \<open>markCompleted\<close> return \<open>null\<close> and \<open>deleteTask\<close> returns
  \<open>false\<close>, the three handlers answer 404 with the message that the task was not
  found, and the repository after each call is the repository before it.
\<close>

theorem unknown_id_not_found:
  assumes "i \<notin> task_id ` set (tasks r)"
  shows "updateTask i u r = (None, r)
       \<and> deleteTask i r = (False, r)
       \<and> markCompleted i r = (None, r)
       \<and> updateTask_handler i body r = (Response 404 (Message ''Task not found''), r)
       \<and> deleteTask_handler i r = (Response 404 (Message ''Task not found''), r)
       \<and> markCompleted_handler i r = (Response 404 (Message ''Task not found''), r)"
  using updateTask_missing [OF assms] deleteTask_missing [OF assms]
  by (simp add: markCompleted_def updateTask_handler_def deleteTask_handler_def
      markCompleted_handler_def)

theorem unknown_id_not_found_witness:
  "7 \<notin> task_id ` set (tasks repo_two)
   \<and> updateTask_handler 7 body_retitle repo_two = (Response 404 (Message ''Task not found''), repo_two)
   \<and> deleteTask_handler 7 repo_two = (Response 404 (Message ''Task not found''), repo_two)
   \<and> markCompleted_handler 7 repo_two = (Response 404 (Message ''Task not found''), repo_two)"
proof -
  have h: "7 \<notin> task_id ` set (tasks repo_two)"
    by (simp add: repo_two_def task_milk_def task_report_def)
  from unknown_id_not_found [OF h, of _ body_retitle] h show ?thesis
    by simp
qed

text \<open>
  Claim C5. An update of an id that is in the collection answers with the updated task,
  which replaces the first task of that id at its index. The updated task has the same
  id, and each of title, description, deadline, priority and status is the value of the
  request when the request has that property and the value of the existing task when it
  has not.
\<close>

theorem updateTask_overlays_present_fields:
  assumes "i \<in> task_id ` set (tasks r)"
  shows "\<exists>k u. k < length (tasks r) \<and> task_id (tasks r ! k) = i
     \<and> updateTask_handler i body r =
         (Response 200 (TaskBody (toJSON u)), r\<lparr> tasks := (tasks r)[k := u] \<rparr>)
     \<and> task_id u = i
     \<and> title u = (case body_title body of None \<Rightarrow> title (tasks r ! k) | Some v \<Rightarrow> v)
     \<and> description u = (case body_description body of None \<Rightarrow> description (tasks r ! k) | Some v \<Rightarrow> v)
     \<and> deadline u = (case body_deadline body of None \<Rightarrow> deadline (tasks r ! k) | Some v \<Rightarrow> v)
     \<and> priority u = (case body_priority body of None \<Rightarrow> priority (tasks r ! k) | Some v \<Rightarrow> v)
     \<and> status u = (case body_status body of None \<Rightarrow> status (tasks r ! k) | Some v \<Rightarrow> v)"
proof -
  from assms obtain x where "x \<in> set (tasks r)" "task_id x = i"
    by auto
  then obtain k where k: "findIndex (\<lambda>t. task_id t = i) (tasks r) = Some k"
    by (rule findIndex_present)
  from findIndex_Some [OF k] have "k < length (tasks r)" "task_id (tasks r ! k) = i"
    by simp_all
  define u where "u =
     \<lparr> task_id = task_id (tasks r ! k),
       title = default_to (body_title body) (title (tasks r ! k)),
       description = default_to (body_description body) (description (tasks r ! k)),
       deadline = default_to (body_deadline body) (deadline (tasks r ! k)),
       priority = default_to (body_priority body) (priority (tasks r ! k)),
       status = default_to (body_status body) (status (tasks r ! k)) \<rparr>"
  have "updateTask_handler i body r =
         (Response 200 (TaskBody (toJSON u)), r\<lparr> tasks := (tasks r)[k := u] \<rparr>)"
    by (simp add: updateTask_handler_def updateTask_found [OF k] updates_of_def Let_def u_def)
  moreover have "task_id u = i"
    using \<open>task_id (tasks r ! k) = i\<close> by (simp add: u_def)
  moreover have "title u = (case body_title body of None \<Rightarrow> title (tasks r ! k) | Some v \<Rightarrow> v)"
    and "description u = (case body_description body of None \<Rightarrow> description (tasks r ! k) | Some v \<Rightarrow> v)"
    and "deadline u = (case body_deadline body of None \<Rightarrow> deadline (tasks r ! k) | Some v \<Rightarrow> v)"
    and "priority u = (case body_priority body of None \<Rightarrow> priority (tasks r ! k) | Some v \<Rightarrow> v)"
    and "status u = (case body_status body of None \<Rightarrow> status (tasks r ! k) | Some v \<Rightarrow> v)"
    by (simp_all add: u_def default_to_def)
  ultimately show ?thesis
    using \<open>k < length (tasks r)\<close> \<open>task_id (tasks r ! k) = i\<close> by blast
qed

theorem updateTask_overlays_present_fields_witness:
  "1 \<in> task_id ` set (tasks repo_two)
   \<and> body_deadline body_retitle = None \<and> body_priority body_retitle = None \<and> body_status body_retitle = None
   \<and> (\<exists>u. fst (updateTask_handler 1 body_retitle repo_two) = Response 200 (TaskBody (toJSON u))
        \<and> task_id u = 1
        \<and> title u = JStr ''Buy oat milk'' \<and> description u = JStr ''two litres''
        \<and> deadline u = deadline task_milk \<and> priority u = priority task_milk \<and> status u = status task_milk)"
proof -
  have h: "1 \<in> task_id ` set (tasks repo_two)"
    by (simp add: repo_two_def task_milk_def task_report_def)
  from updateTask_overlays_present_fields [OF h, of body_retitle]
  obtain k u where ku: "k < length (tasks repo_two)" "task_id (tasks repo_two ! k) = 1"
     "updateTask_handler 1 body_retitle repo_two =
         (Response 200 (TaskBody (toJSON u)), repo_two\<lparr> tasks := (tasks repo_two)[k := u] \<rparr>)"
     "task_id u = 1"
     "title u = (case body_title body_retitle of None \<Rightarrow> title (tasks repo_two ! k) | Some v \<Rightarrow> v)"
     "description u = (case body_description body_retitle of None \<Rightarrow> description (tasks repo_two ! k) | Some v \<Rightarrow> v)"
     "deadline u = (case body_deadline body_retitle of None \<Rightarrow> deadline (tasks repo_two ! k) | Some v \<Rightarrow> v)"
     "priority u = (case body_priority body_retitle of None \<Rightarrow> priority (tasks repo_two ! k) | Some v \<Rightarrow> v)"
     "status u = (case body_status body_retitle of None \<Rightarrow> status (tasks repo_two ! k) | Some v \<Rightarrow> v)"
    by blast
  from ku(1,2) have "k = 0"
    by (auto simp: repo_two_def task_milk_def task_report_def less_Suc_eq)
  with ku h show ?thesis
    by (auto simp: body_retitle_def repo_two_def)
qed

section \<open>Positions in the collection\<close>

lemma deleteTask_found:
  assumes "findIndex (\<lambda>t. task_id t = i) (tasks r) = Some k"
  shows "deleteTask i r = (True, r\<lparr> tasks := take k (tasks r) @ drop (Suc k) (tasks r) \<rparr>)"
  using assms by (simp add: deleteTask_def)

text \<open>
  Claim C10. \<open>addTask\<close>, and with it an accepted create request, appends the new
  task to the collection. An update of an id in the collection keeps the length, leaves a
  task of that id, the task that the update returns, at the index of the first task of
  that id, and leaves every other index as it was. A delete of an id in the collection removes the task at that index and keeps
  the tasks before and after it in their order.
\<close>

theorem mutations_preserve_positions:
  "tasks (snd (addTask data r)) = tasks r @ [fst (addTask data r)]
   \<and> (truthy_opt (body_title body) \<longrightarrow>
        (\<exists>t. fst (createTask body r) = Response 201 (TaskBody (toJSON t))
            \<and> tasks (snd (createTask body r)) = tasks r @ [t]))
   \<and> (i \<in> task_id ` set (tasks r) \<longrightarrow>
        (\<exists>k<length (tasks r). task_id (tasks r ! k) = i
           \<and> length (tasks (snd (updateTask i u r))) = length (tasks r)
           \<and> task_id (tasks (snd (updateTask i u r)) ! k) = i
           \<and> fst (updateTask i u r) = Some (tasks (snd (updateTask i u r)) ! k)
           \<and> (\<forall>j<length (tasks r). j \<noteq> k \<longrightarrow> tasks (snd (updateTask i u r)) ! j = tasks r ! j)
           \<and> tasks (snd (deleteTask i r)) = take k (tasks r) @ drop (Suc k) (tasks r)))"
proof (intro conjI impI)
  show "tasks (snd (addTask data r)) = tasks r @ [fst (addTask data r)]"
    by (simp add: addTask_def Let_def)
next
  assume "truthy_opt (body_title body)"
  then obtain ti where ti: "body_title body = Some ti" "truthy ti"
    by (rule truthy_optE)
  show "\<exists>t. fst (createTask body r) = Response 201 (TaskBody (toJSON t))
            \<and> tasks (snd (createTask body r)) = tasks r @ [t]"
    unfolding createTask_accepts [OF ti] Let_def
    by (rule exI, rule conjI, simp) simp
next
  assume "i \<in> task_id ` set (tasks r)"
  then obtain x where "x \<in> set (tasks r)" "task_id x = i"
    by auto
  then obtain k where k: "findIndex (\<lambda>t. task_id t = i) (tasks r) = Some k"
    by (rule findIndex_present)
  from findIndex_Some [OF k] have kl: "k < length (tasks r)" and ki: "task_id (tasks r ! k) = i"
    by simp_all
  show "\<exists>k<length (tasks r). task_id (tasks r ! k) = i
           \<and> length (tasks (snd (updateTask i u r))) = length (tasks r)
           \<and> task_id (tasks (snd (updateTask i u r)) ! k) = i
           \<and> fst (updateTask i u r) = Some (tasks (snd (updateTask i u r)) ! k)
           \<and> (\<forall>j<length (tasks r). j \<noteq> k \<longrightarrow> tasks (snd (updateTask i u r)) ! j = tasks r ! j)
           \<and> tasks (snd (deleteTask i r)) = take k (tasks r) @ drop (Suc k) (tasks r)"
    using kl ki
    by (intro exI [of _ k]) (simp add: updateTask_found [OF k] deleteTask_found [OF k] Let_def)
qed

theorem mutations_preserve_positions_witness:
  "truthy_opt (body_title body_urgent) \<and> 1 \<in> task_id ` set (tasks repo_two)
   \<and> (\<exists>t. tasks (snd (createTask body_urgent repo_two)) = [task_milk, task_report, t])
   \<and> tasks (snd (updateTask 1 (updates_of body_retitle) repo_two)) ! 1 = task_report
   \<and> task_id (tasks (snd (updateTask 1 (updates_of body_retitle) repo_two)) ! 0) = 1
   \<and> tasks (snd (deleteTask 1 repo_two)) = [task_report]"
proof -
  have h: "truthy_opt (body_title body_urgent)"
    by (simp add: body_urgent_def)
  have m: "1 \<in> task_id ` set (tasks repo_two)"
    by (simp add: repo_two_def task_milk_def task_report_def)
  from mutations_preserve_positions [of _ repo_two body_urgent 1 "updates_of body_retitle"] h m
  obtain t k where *: "tasks (snd (createTask body_urgent repo_two)) = tasks repo_two @ [t]"
    "k < length (tasks repo_two)" "task_id (tasks repo_two ! k) = 1"
    "task_id (tasks (snd (updateTask 1 (updates_of body_retitle) repo_two)) ! k) = 1"
    "\<forall>j<length (tasks repo_two). j \<noteq> k \<longrightarrow>
        tasks (snd (updateTask 1 (updates_of body_retitle) repo_two)) ! j = tasks repo_two ! j"
    "tasks (snd (deleteTask 1 repo_two)) = take k (tasks repo_two) @ drop (Suc k) (tasks repo_two)"
    by blast
  from *(2,3) have k0: "k = 0"
    by (auto simp: repo_two_def task_milk_def task_report_def less_Suc_eq)
  from *(5) k0 have "tasks (snd (updateTask 1 (updates_of body_retitle) repo_two)) ! 1 = tasks repo_two ! 1"
    by (simp add: repo_two_def)
  with * k0 h m show ?thesis
    by (auto simp: repo_two_def)
qed

section \<open>Identifiers\<close>

lemma plus_one_below: "x < 2 ^ 53 \<Longrightarrow> plus_one x = x + 1"
  by (simp add: plus_one_def)

lemma createTask_cases:
  obtains (rejected) "createTask body r = (Response 400 (Message ''Title is required''), r)"
      and "\<not> truthy_opt (body_title body)"
  | (accepted) t where "createTask body r =
        (Response 201 (TaskBody (toJSON t)), \<lparr> tasks = tasks r @ [t], nextId = plus_one (nextId r) \<rparr>)"
      and "task_id t = nextId r" and "truthy_opt (body_title body)"
proof (cases "truthy_opt (body_title body)")
  case False
  then show ?thesis by (intro rejected createTask_rejects)
next
  case True
  then obtain ti where ti: "body_title body = Some ti" "truthy ti"
    by (rule truthy_optE)
  define t where "t =
     \<lparr> task_id = nextId r, title = ti,
       description = or_else (body_description body) (JStr []),
       deadline = or_else (body_deadline body) JNull,
       priority = (if includes_value allowedPriorities (body_priority body)
                   then default_to (body_priority body) (JStr ''Low'') else JStr ''Low''),
       status = JStr ''ToDo'' \<rparr>"
  have "createTask body r =
        (Response 201 (TaskBody (toJSON t)), \<lparr> tasks = tasks r @ [t], nextId = plus_one (nextId r) \<rparr>)"
    by (simp add: createTask_accepts [OF ti] Let_def t_def)
  moreover have "task_id t = nextId r"
    by (simp add: t_def)
  ultimately show ?thesis
    using True by (rule accepted)
qed

lemma repo_ok_createTask:
  assumes "repo_ok r" and "nextId r < 2 ^ 53"
  shows "repo_ok (snd (createTask body r))"
proof (cases rule: createTask_cases [of body r])
  case rejected
  with assms show ?thesis by simp
next
  case (accepted t)
  with assms show ?thesis
    by (fastforce simp: repo_ok_def plus_one_below)
qed

lemma repo_ok_updateTask:
  assumes "repo_ok r"
  shows "repo_ok (snd (updateTask i u r))"
proof (cases "findIndex (\<lambda>t. task_id t = i) (tasks r)")
  case None
  with assms show ?thesis by (simp add: updateTask_def)
next
  case (Some k)
  let ?new = "\<lparr> task_id = task_id (tasks r ! k),
                  title = default_to (upd_title u) (title (tasks r ! k)),
                  description = default_to (upd_description u) (description (tasks r ! k)),
                  deadline = default_to (upd_deadline u) (deadline (tasks r ! k)),
                  priority = default_to (upd_priority u) (priority (tasks r ! k)),
                  status = default_to (upd_status u) (status (tasks r ! k)) \<rparr>"
  from findIndex_Some [OF Some] have k: "k < length (tasks r)"
    by simp
  have ids: "map task_id ((tasks r)[k := ?new]) = map task_id (tasks r)"
    using k by (simp add: map_update list_update_same_conv)
  have "\<forall>t\<in>set ((tasks r)[k := ?new]). 1 \<le> task_id t \<and> task_id t < nextId r"
  proof
    fix t assume "t \<in> set ((tasks r)[k := ?new])"
    then have "task_id t \<in> set (map task_id ((tasks r)[k := ?new]))"
      unfolding set_map by (rule imageI)
    then have "task_id t \<in> task_id ` set (tasks r)"
      by (simp only: ids set_map)
    with assms show "1 \<le> task_id t \<and> task_id t < nextId r"
      by (auto simp: repo_ok_def)
  qed
  with assms ids show ?thesis
    by (simp add: updateTask_found [OF Some] Let_def repo_ok_def)
qed

lemma repo_ok_deleteTask:
  assumes "repo_ok r"
  shows "repo_ok (snd (deleteTask i r))"
proof (cases "findIndex (\<lambda>t. task_id t = i) (tasks r)")
  case None
  with assms show ?thesis by (simp add: deleteTask_def)
next
  case (Some k)
  from assms have "distinct (map task_id (tasks r))"
    by (simp add: repo_ok_def)
  then have "distinct (take k (map task_id (tasks r)) @ drop (Suc k) (map task_id (tasks r)))"
    by (simp add: set_take_disj_set_drop_if_distinct)
  then have "distinct (map task_id (take k (tasks r) @ drop (Suc k) (tasks r)))"
    by (simp only: map_append take_map drop_map)
  moreover have "set (take k (tasks r) @ drop (Suc k) (tasks r)) \<subseteq> set (tasks r)"
    by (auto dest: in_set_takeD in_set_dropD)
  ultimately show ?thesis
    using assms by (auto simp: deleteTask_found [OF Some] repo_ok_def)
qed

lemma foldl_max_ids:
  "foldl (\<lambda>acc t. max acc (f t)) a ts = Max (insert (a::int) (f ` set ts))"
proof (induction ts arbitrary: a)
  case Nil
  show ?case by simp
next
  case (Cons t ts)
  have "Max (insert (max a (f t)) (f ` set ts)) = Max (insert a (insert (f t) (f ` set ts)))"
  proof (cases "ts = []")
    case True
    then show ?thesis by simp
  next
    case False
    then have "f ` set ts \<noteq> {}" by simp
    then show ?thesis by (simp add: max.assoc)
  qed
  with Cons.IH [of "max a (f t)"] show ?case
    by (simp del: Max_insert)
qed

lemma task_id_loaded: "task_id (Task (parse_task obj)) = stored_id obj"
  by (simp add: Task_def parse_task_def)

lemma nextId_TaskRepository_Stored:
  "nextId (TaskRepository (Stored objs)) = plus_one (Max (insert 0 (stored_id ` set objs)))"
  by (simp add: TaskRepository_def load_def Let_def foldl_max_ids image_image task_id_loaded)

lemma tasks_TaskRepository_Stored:
  "tasks (TaskRepository (Stored objs)) = map Task (map parse_task objs)"
  by (simp add: TaskRepository_def load_def Let_def)

lemma stored_id_saved: "stored_id (stringify_task (toJSON t)) = task_id t"
  by (simp add: stringify_task_def toJSON_def)

lemma ids_after_persist:
  "map task_id (tasks (TaskRepository (save True r d))) = map task_id (tasks r)"
  by (simp add: save_def tasks_TaskRepository_Stored comp_def task_id_loaded stored_id_saved)

lemma nextId_after_persist:
  "nextId (TaskRepository (save True r d)) = plus_one (Max (insert 0 (task_id ` set (tasks r))))"
  by (simp add: save_def nextId_TaskRepository_Stored image_image stored_id_saved)

lemma repo_ok_persist:
  assumes "repo_ok r" and "nextId r \<le> 2 ^ 53"
  shows "repo_ok (TaskRepository (save True r d))
       \<and> nextId (TaskRepository (save True r d)) \<le> nextId r"
proof -
  let ?r' = "TaskRepository (save True r d)"
  let ?m = "Max (insert 0 (task_id ` set (tasks r)))"
  from assms(1) have ids: "\<forall>i\<in>task_id ` set (tasks r). 1 \<le> i \<and> i < nextId r"
    and one: "1 \<le> nextId r" and dist: "distinct (map task_id (tasks r))"
    by (auto simp: repo_ok_def)
  have "?m \<in> insert 0 (task_id ` set (tasks r))"
    by (rule Max_in) simp_all
  with ids one have m: "0 \<le> ?m" "?m < nextId r"
    by auto
  from m assms(2) have "?m < 2 ^ 53"
    by linarith
  then have next': "nextId ?r' = ?m + 1"
    by (simp only: nextId_after_persist plus_one_below)
  have below: "\<forall>i\<in>task_id ` set (tasks r). i \<le> ?m"
    by simp
  have "\<forall>t\<in>set (tasks ?r'). 1 \<le> task_id t \<and> task_id t < nextId ?r'"
  proof
    fix t assume "t \<in> set (tasks ?r')"
    then have "task_id t \<in> set (map task_id (tasks ?r'))"
      unfolding set_map by (rule imageI)
    then have "task_id t \<in> task_id ` set (tasks r)"
      by (simp only: ids_after_persist set_map)
    with ids below next' show "1 \<le> task_id t \<and> task_id t < nextId ?r'"
      by fastforce
  qed
  moreover have "distinct (map task_id (tasks ?r'))"
    by (simp only: ids_after_persist dist)
  moreover from m(1) have "1 \<le> nextId ?r'"
    unfolding next' by linarith
  moreover from m(2) have "nextId ?r' \<le> nextId r"
    unfolding next' by linarith
  ultimately show ?thesis
    unfolding repo_ok_def by blast
qed

lemma snd_updateTask_handler:
  "snd (updateTask_handler i body r) = snd (updateTask i (updates_of body) r)"
  by (cases "updateTask i (updates_of body) r")
     (simp add: updateTask_handler_def split: option.splits)

lemma snd_deleteTask_handler: "snd (deleteTask_handler i r) = snd (deleteTask i r)"
  by (cases "deleteTask i r") (simp add: deleteTask_handler_def split: bool.splits)

lemma snd_markCompleted_handler:
  "snd (markCompleted_handler i r) =
   snd (updateTask i \<lparr> upd_title = None, upd_description = None, upd_deadline = None,
                        upd_priority = None, upd_status = Some (JStr ''Completed'') \<rparr> r)"
  unfolding markCompleted_handler_def markCompleted_def
  by (cases "updateTask i \<lparr> upd_title = None, upd_description = None, upd_deadline = None,
                        upd_priority = None, upd_status = Some (JStr ''Completed'') \<rparr> r")
     (simp split: option.splits)

lemma nextId_updateTask: "nextId (snd (updateTask i u r)) = nextId r"
  by (cases "findIndex (\<lambda>t. task_id t = i) (tasks r)")
     (simp_all add: updateTask_def Let_def)

lemma nextId_deleteTask: "nextId (snd (deleteTask i r)) = nextId r"
  by (cases "findIndex (\<lambda>t. task_id t = i) (tasks r)")
     (simp_all add: deleteTask_def)

lemma apply_op_Create:
  "fst (apply_op (Create body) s) = (if truthy_opt (body_title body) then Some (nextId (repo s)) else None)
   \<and> repo (snd (apply_op (Create body) s)) = snd (createTask body (repo s))
   \<and> nextId (repo (snd (apply_op (Create body) s)))
       = (if truthy_opt (body_title body) then plus_one (nextId (repo s)) else nextId (repo s))"
proof (cases rule: createTask_cases [of body "repo s"])
  case rejected
  then show ?thesis
    by (simp add: created_id_def)
next
  case (accepted t)
  then show ?thesis
    by (simp add: created_id_def toJSON_def)
qed

lemma apply_op_step:
  assumes "repo_ok (repo s)" and "nextId (repo s) < 2 ^ 53"
  shows "repo_ok (repo (snd (apply_op x s)))
       \<and> nextId (repo (snd (apply_op x s))) \<le> nextId (repo s) + 1"
proof (cases x)
  case (Create body)
  from apply_op_Create [of body s]
  have r': "repo (snd (apply_op (Create body) s)) = snd (createTask body (repo s))"
    and n': "nextId (repo (snd (apply_op (Create body) s)))
       = (if truthy_opt (body_title body) then plus_one (nextId (repo s)) else nextId (repo s))"
    by blast+
  from n' assms(2) have "nextId (repo (snd (apply_op (Create body) s))) \<le> nextId (repo s) + 1"
    by (simp add: plus_one_below)
  moreover from repo_ok_createTask [OF assms, of body] have "repo_ok (repo (snd (apply_op (Create body) s)))"
    by (simp only: r')
  ultimately show ?thesis
    unfolding Create by blast
next
  case (Update i body)
  with assms repo_ok_updateTask [of "repo s" i "updates_of body"] show ?thesis
    by (simp add: snd_updateTask_handler nextId_updateTask)
next
  case (Delete i)
  with assms repo_ok_deleteTask [of "repo s" i] show ?thesis
    by (simp add: snd_deleteTask_handler nextId_deleteTask)
next
  case (Complete i)
  with assms repo_ok_updateTask [of "repo s" i] show ?thesis
    by (simp add: snd_markCompleted_handler nextId_updateTask)
next
  case Persist_initialize
  from assms(2) have "nextId (repo s) \<le> 2 ^ 53" by simp
  from repo_ok_persist [OF assms(1) this, of "tasksFile s"] Persist_initialize show ?thesis
    by (simp add: persist_initialize_def Let_def)
qed

lemma run_Cons:
  "fst (run (x # ops) s) =
     (case fst (apply_op x s) of
        None \<Rightarrow> fst (run ops (snd (apply_op x s)))
      | Some i \<Rightarrow> i # fst (run ops (snd (apply_op x s))))"
  "snd (run (x # ops) s) = snd (run ops (snd (apply_op x s)))"
  by (simp_all add: split_beta Let_def)

lemma run_invariant:
  assumes "repo_ok (repo s)" and "nextId (repo s) + int (length ops) \<le> 2 ^ 53"
  shows "repo_ok (repo (snd (run ops s)))
       \<and> nextId (repo (snd (run ops s))) \<le> nextId (repo s) + int (length ops)"
  using assms
proof (induction ops arbitrary: s)
  case Nil
  then show ?case by simp
next
  case (Cons x ops)
  let ?s' = "snd (apply_op x s)"
  from Cons.prems(2) have "nextId (repo s) < 2 ^ 53"
    by simp
  from apply_op_step [OF Cons.prems(1) this, of x]
  have ok: "repo_ok (repo ?s')" and le: "nextId (repo ?s') \<le> nextId (repo s) + 1"
    by simp_all
  from le Cons.prems(2) have "nextId (repo ?s') + int (length ops) \<le> 2 ^ 53"
    by simp
  from Cons.IH [OF ok this] le show ?case
    unfolding run_Cons by simp
qed

lemma apply_op_counter:
  assumes "x \<noteq> Persist_initialize" and "nextId (repo s) < 2 ^ 53"
  shows "nextId (repo s) \<le> nextId (repo (snd (apply_op x s)))
       \<and> nextId (repo (snd (apply_op x s))) \<le> nextId (repo s) + 1
       \<and> (\<forall>i. fst (apply_op x s) = Some i \<longrightarrow>
             i = nextId (repo s) \<and> nextId (repo (snd (apply_op x s))) = i + 1)"
proof (cases x)
  case (Create body)
  with apply_op_Create [of body s] assms(2) show ?thesis
    by (auto simp: plus_one_below split: if_splits)
next
  case (Update i body)
  then show ?thesis by (simp add: snd_updateTask_handler nextId_updateTask)
next
  case (Delete i)
  then show ?thesis by (simp add: snd_deleteTask_handler nextId_deleteTask)
next
  case (Complete i)
  then show ?thesis by (simp add: snd_markCompleted_handler nextId_updateTask)
next
  case Persist_initialize
  with assms show ?thesis by simp
qed

lemma run_increasing:
  assumes "Persist_initialize \<notin> set ops" and "nextId (repo s) + int (length ops) \<le> 2 ^ 53"
  shows "sorted_wrt (<) (fst (run ops s))
       \<and> (\<forall>i\<in>set (fst (run ops s)). nextId (repo s) \<le> i \<and> i < nextId (repo (snd (run ops s))))
       \<and> nextId (repo s) \<le> nextId (repo (snd (run ops s)))"
  using assms
proof (induction ops arbitrary: s)
  case Nil
  show ?case by simp
next
  case (Cons x ops)
  let ?s' = "snd (apply_op x s)"
  from Cons.prems have x: "x \<noteq> Persist_initialize" and ops: "Persist_initialize \<notin> set ops"
    and small: "nextId (repo s) < 2 ^ 53"
    by auto
  note step = apply_op_counter [OF x small]
  from step Cons.prems(2) have "nextId (repo ?s') + int (length ops) \<le> 2 ^ 53"
    by simp
  note rest = Cons.IH [OF ops this]
  show ?case
  proof (cases "fst (apply_op x s)")
    case None
    with step rest show ?thesis
      unfolding run_Cons by fastforce
  next
    case (Some i)
    with step have i: "i = nextId (repo s)" "nextId (repo ?s') = i + 1"
      by simp_all
    with rest Some show ?thesis
      unfolding run_Cons by fastforce
  qed
qed

text \<open>
  Claim C1, amended. Take a repository whose ids are distinct, at least 1 and below the
  counter, and a run of create, update, delete, complete and persist-and-initialize
  operations that is short enough for the counter to stay below \<open>2^53\<close>. The
  run ends in such a repository, so the ids in the repository are distinct; a create
  request accepted then is given the value of the counter, which is greater than every id
  in the repository at that moment, and leaves the ids distinct; and in a run without a
  persist-and-initialize the ids given out are strictly increasing and greater than every
  id the repository started with, so no id is given out twice. The counter of a new
  repository is 1 for a missing file and for an empty array, and otherwise the greatest of
  0 and the stored ids, plus 1 as the doubles add; that is the greatest stored id plus 1
  when the ids are at least 1 and below \<open>2^53\<close>.
\<close>

theorem created_ids_fresh_and_increasing:
  assumes "repo_ok (repo s)" and "nextId (repo s) + int (length ops) < 2 ^ 53"
  shows "repo_ok (repo (snd (run ops s)))
       \<and> distinct (map task_id (tasks (repo (snd (run ops s)))))
       \<and> (truthy_opt (body_title body) \<longrightarrow>
            fst (apply_op (Create body) (snd (run ops s))) = Some (nextId (repo (snd (run ops s))))
            \<and> (\<forall>t\<in>set (tasks (repo (snd (run ops s)))). task_id t < nextId (repo (snd (run ops s))))
            \<and> distinct (map task_id (tasks (repo (snd (apply_op (Create body) (snd (run ops s))))))))
       \<and> (Persist_initialize \<notin> set ops \<longrightarrow>
            sorted_wrt (<) (fst (run ops s))
            \<and> (\<forall>i\<in>set (fst (run ops s)). \<forall>t\<in>set (tasks (repo s)). task_id t < i))
       \<and> nextId (TaskRepository Missing) = 1
       \<and> nextId (TaskRepository (Stored [])) = 1
       \<and> nextId (TaskRepository (Stored objs)) = plus_one (Max (insert 0 (stored_id ` set objs)))
       \<and> (objs \<noteq> [] \<and> (\<forall>obj\<in>set objs. 1 \<le> stored_id obj \<and> stored_id obj < 2 ^ 53) \<longrightarrow>
            nextId (TaskRepository (Stored objs)) = Max (stored_id ` set objs) + 1)"
proof -
  let ?s' = "snd (run ops s)"
  from assms(2) have bound: "nextId (repo s) + int (length ops) \<le> 2 ^ 53"
    by simp
  from run_invariant [OF assms(1) bound]
  have ok: "repo_ok (repo ?s')" and le: "nextId (repo ?s') \<le> nextId (repo s) + int (length ops)"
    by simp_all
  from le assms(2) have small: "nextId (repo ?s') < 2 ^ 53"
    by simp
  from ok have inv: "distinct (map task_id (tasks (repo ?s')))"
    "\<forall>t\<in>set (tasks (repo ?s')). task_id t < nextId (repo ?s')"
    by (simp_all add: repo_ok_def)
  have create: "truthy_opt (body_title body) \<longrightarrow>
      fst (apply_op (Create body) ?s') = Some (nextId (repo ?s'))"
    using apply_op_Create [of body ?s'] by simp
  from apply_op_step [OF ok small, of "Create body"]
  have after: "distinct (map task_id (tasks (repo (snd (apply_op (Create body) ?s')))))"
    by (simp add: repo_ok_def)
  have incr: "Persist_initialize \<notin> set ops \<longrightarrow>
      sorted_wrt (<) (fst (run ops s))
      \<and> (\<forall>i\<in>set (fst (run ops s)). \<forall>t\<in>set (tasks (repo s)). task_id t < i)"
  proof
    assume "Persist_initialize \<notin> set ops"
    from run_increasing [OF this bound]
    have "sorted_wrt (<) (fst (run ops s))" and "\<forall>i\<in>set (fst (run ops s)). nextId (repo s) \<le> i"
      by simp_all
    moreover from assms(1) have "\<forall>t\<in>set (tasks (repo s)). task_id t < nextId (repo s)"
      by (simp add: repo_ok_def)
    ultimately show "sorted_wrt (<) (fst (run ops s))
      \<and> (\<forall>i\<in>set (fst (run ops s)). \<forall>t\<in>set (tasks (repo s)). task_id t < i)"
      by fastforce
  qed
  have fresh: "nextId (TaskRepository Missing) = 1" "nextId (TaskRepository (Stored [])) = 1"
    by (simp_all add: TaskRepository_def load_def plus_one_def)
  have positive: "objs \<noteq> [] \<and> (\<forall>obj\<in>set objs. 1 \<le> stored_id obj \<and> stored_id obj < 2 ^ 53) \<longrightarrow>
      nextId (TaskRepository (Stored objs)) = Max (stored_id ` set objs) + 1"
  proof
    assume a: "objs \<noteq> [] \<and> (\<forall>obj\<in>set objs. 1 \<le> stored_id obj \<and> stored_id obj < 2 ^ 53)"
    then have ne: "stored_id ` set objs \<noteq> {}"
      by simp
    then have "Max (stored_id ` set objs) \<in> stored_id ` set objs"
      by (intro Max_in) simp_all
    then obtain obj where obj: "obj \<in> set objs" "Max (stored_id ` set objs) = stored_id obj"
      by blast
    with a have "1 \<le> stored_id obj" "stored_id obj < 2 ^ 53"
      by blast+
    then have range: "0 \<le> Max (stored_id ` set objs)" "Max (stored_id ` set objs) < 2 ^ 53"
      unfolding obj(2) by linarith+
    from ne range(1) have "Max (insert 0 (stored_id ` set objs)) = Max (stored_id ` set objs)"
      by simp
    with range(2) show "nextId (TaskRepository (Stored objs)) = Max (stored_id ` set objs) + 1"
      by (simp only: nextId_TaskRepository_Stored plus_one_below)
  qed
  from ok inv create after incr fresh positive nextId_TaskRepository_Stored [of objs]
  show ?thesis by blast
qed

theorem created_ids_fresh_and_increasing_witness:
  "repo_ok (repo (boot Missing))
   \<and> nextId (repo (boot Missing)) + int (length ops_session) < 2 ^ 53
   \<and> Persist_initialize \<notin> set ops_session
   \<and> fst (run ops_session (boot Missing)) = [1, 2, 3]
   \<and> sorted_wrt (<) (fst (run ops_session (boot Missing)))
   \<and> distinct (map task_id (tasks (repo (snd (run ops_session (boot Missing))))))"
proof -
  have h: "repo_ok (repo (boot Missing))"
    by (simp add: repo_ok_def boot_def TaskRepository_def load_def)
  have b: "nextId (repo (boot Missing)) + int (length ops_session) < 2 ^ 53"
    by (simp add: boot_def TaskRepository_def load_def ops_session_def)
  have n: "Persist_initialize \<notin> set ops_session"
    by (simp add: ops_session_def)
  have e: "fst (run ops_session (boot Missing)) = [1, 2, 3]"
    by code_simp
  from created_ids_fresh_and_increasing [OF h b, where body = body_urgent and objs = "[]"] n
  have "sorted_wrt (<) (fst (run ops_session (boot Missing)))"
    and "distinct (map task_id (tasks (repo (snd (run ops_session (boot Missing))))))"
    by blast+
  with h b n e show ?thesis
    by blast
qed

text \<open>
  Claim C1 as stated fails across a persist-and-initialize: two tasks are created, the
  second is deleted, the repository is saved and built anew from the file, and the next
  task created is given the id 2 again. It also fails where the doubles stop counting in
  steps of 1: from a file whose greatest id is \<open>2^53 - 1\<close> the counter starts at
  \<open>2^53\<close> and stays there, and two tasks created in a row are both given that id.
\<close>

theorem deleted_id_reused_after_restart:
  "fst (run ops_reuse (boot Missing)) = [1, 2, 2]
   \<and> \<not> sorted_wrt (<) (fst (run ops_reuse (boot Missing)))
   \<and> \<not> distinct (fst (run ops_reuse (boot Missing)))
   \<and> fst (run ops_twice (boot file_at_limit)) = [9007199254740992, 9007199254740992]"
  by code_simp

section \<open>Persistence\<close>

lemma JSON_parse_stringify:
  assumes "storable v"
  shows "JSON_parse (JSON_stringify v) = v"
  using assms
proof (induction v)
  case (JArr xs)
  then have "map (\<lambda>x. JSON_parse (JSON_stringify x)) xs = xs"
    by (intro map_idI) simp
  then show ?case by (simp add: comp_def)
next
  case (JObj kvs)
  have "map (\<lambda>kv. (fst kv, JSON_parse (JSON_stringify (snd kv)))) kvs = kvs"
  proof (intro map_idI)
    fix kv assume kv: "kv \<in> set kvs"
    then have "snd kv \<in> Basic_BNFs.snds kv" "storable (snd kv)"
      using JObj.prems by (simp_all add: snds.simps)
    with JObj.IH [OF kv] show "(fst kv, JSON_parse (JSON_stringify (snd kv))) = kv"
      by simp
  qed
  then show ?case by (simp add: comp_def case_prod_beta)
qed simp_all

lemma Task_roundtrip:
  assumes "task_storable t"
  shows "Task (parse_task (stringify_task (toJSON t))) = t"
  using assms
  by (simp add: Task_def parse_task_def stringify_task_def toJSON_def default_to_def
      task_storable_def JSON_parse_stringify)

lemma tasks_after_save:
  "tasks (TaskRepository (save True r d))
     = map (\<lambda>t. Task (parse_task (stringify_task (toJSON t)))) (tasks r)"
  by (simp add: TaskRepository_def save_def load_def Let_def comp_def)

text \<open>
  Claim C8, amended. For a collection in whose fields no infinity occurs, a save whose
  write succeeds followed by the construction of a new repository from the same file
  yields the saved tasks: the same list, task by task and field by field.
\<close>

theorem save_load_roundtrip:
  assumes "writable" and "\<forall>t\<in>set (tasks r). task_storable t"
  shows "tasks (TaskRepository (save writable r d)) = tasks r
       \<and> tasks (repo (persist_initialize \<lparr> repo = r, tasksFile = d \<rparr>)) = tasks r"
proof -
  from assms(2) have "map (\<lambda>t. Task (parse_task (stringify_task (toJSON t)))) (tasks r) = tasks r"
    by (intro map_idI Task_roundtrip) simp
  then have "tasks (TaskRepository (save True r d)) = tasks r"
    by (simp only: tasks_after_save)
  with assms(1) show ?thesis
    by (simp add: persist_initialize_def Let_def)
qed

theorem save_load_roundtrip_witness:
  "list_all task_storable (tasks repo_two)
   \<and> tasks (TaskRepository (save True repo_two Missing)) = [task_milk, task_report]"
proof -
  have h: "list_all task_storable (tasks repo_two)"
    by code_simp
  then have h': "\<forall>t\<in>set (tasks repo_two). task_storable t"
    by (simp add: list_all_iff)
  from save_load_roundtrip [OF TrueI h', of Missing]
  have "tasks (TaskRepository (save True repo_two Missing)) = tasks repo_two"
    by blast
  with h show ?thesis
    by (simp add: repo_two_def)
qed

text \<open>
  Claim C8 as stated fails for a field that holds an infinity, which is written as
  \<open>null\<close>: the description of the task created from the number \<open>1e999\<close> is
  infinity before the save and \<open>null\<close> in the repository built from the file. It
  also fails when the write fails: the error is swallowed, no file exists, and the new
  repository is empty.
\<close>

theorem infinity_saved_as_null:
  "map description (tasks repo_infinite) = [JInfinity]
   \<and> map description (tasks (TaskRepository (save True repo_infinite Missing))) = [JNull]
   \<and> tasks (TaskRepository (save True repo_infinite Missing)) \<noteq> tasks repo_infinite
   \<and> tasks repo_one = [task_milk]
   \<and> tasks (TaskRepository (save False repo_one Missing)) = []"
  by code_simp

section \<open>Export\<close>

lemma split_on_line:
  assumes "c \<notin> set l"
  shows "split_on c (l @ c # rest) = l # split_on c rest"
  using assms by (induction l) auto

lemma split_on_lines:
  assumes "\<forall>l\<in>set ls. c \<notin> set l"
  shows "split_on c (concat (map (\<lambda>l. l @ [c]) ls) @ rest) = ls @ split_on c rest"
  using assms by (induction ls) (simp_all add: split_on_line)

lemma split_on_blocks:
  assumes "\<forall>ls\<in>set blocks. \<forall>l\<in>set ls. c \<notin> set l" and "blocks \<noteq> []"
  shows "split_on c (join [c] (map (\<lambda>ls. concat (map (\<lambda>l. l @ [c]) ls)) blocks))
         = concat (map (\<lambda>ls. ls @ [[]]) blocks)"
  using assms
proof (induction blocks rule: induct_list012)
  case 1
  then show ?case by simp
next
  case (2 ls)
  then have "split_on c (concat (map (\<lambda>l. l @ [c]) ls) @ []) = ls @ split_on c []"
    by (intro split_on_lines) simp
  then show ?case
    by simp
next
  case (3 ls ls' blocks)
  let ?rest = "join [c] (map (\<lambda>ls. concat (map (\<lambda>l. l @ [c]) ls)) (ls' # blocks))"
  from "3.prems" have "split_on c (concat (map (\<lambda>l. l @ [c]) ls) @ c # ?rest)
      = ls @ split_on c (c # ?rest)"
    by (intro split_on_lines) simp
  moreover from "3.IH"(2) "3.prems"
  have "split_on c ?rest = concat (map (\<lambda>ls. ls @ [[]]) (ls' # blocks))"
    by simp
  ultimately show ?case
    by simp
qed

lemma all_results_values:
  assumes "\<forall>x\<in>set xs. f x = Inr (g x)"
  shows "all_results (map f xs) = Inr (map g xs)"
  using assms by (induction xs) simp_all

lemma all_results_throws:
  assumes "x \<in> set xs" and "f x = Inl TypeError"
  shows "all_results (map f xs) = Inl TypeError"
  using assms
proof (induction xs)
  case Nil
  then show ?case by simp
next
  case (Cons y ys)
  show ?case
  proof (cases "f y")
    case (Inl e)
    then show ?thesis by (cases e) simp
  next
    case (Inr v)
    with Cons obtain "x \<in> set ys"
      by auto
    with Cons.IH Cons.prems(2) Inr show ?thesis
      by simp
  qed
qed

lemma getTasks_no_query: "getTasks rt no_query r = Inr (tasks r)"
  by (simp add: getTasks_def no_query_def apply_sort_def apply_filter_def)

lemma printable_text_of:
  assumes "printable rt v"
  shows "to_string rt v = Inr (text_of rt v)"
  using assms by (cases "to_string rt v") (simp_all add: printable_def text_of_def)

lemma not_printable_throws:
  assumes "\<not> printable rt v"
  shows "to_string rt v = Inl TypeError"
proof (cases "to_string rt v")
  case (Inl e)
  then show ?thesis by (cases e) simp
next
  case (Inr s)
  with assms show ?thesis by (simp add: printable_def)
qed

lemma export_block_printable:
  assumes "task_printable rt t"
  shows "export_block rt t = Inr (concat (map (\<lambda>l. l @ [newline]) (export_fields rt t)))"
  using assms
  by (simp add: task_printable_def export_block_def export_fields_def printable_text_of)

lemma export_block_throws:
  assumes "\<not> task_printable rt t"
  shows "export_block rt t = Inl TypeError"
proof -
  have "export_block rt t = Inl TypeError \<or> task_printable rt t"
    unfolding export_block_def task_printable_def
    by (cases "printable rt (title t)"; cases "printable rt (description t)";
        cases "printable rt (deadline t)"; cases "printable rt (priority t)";
        cases "printable rt (status t)")
       (simp_all add: printable_text_of not_printable_throws)
  with assms show ?thesis by blast
qed

text \<open>
  Claim C9, amended. When every field of every task can be converted to a string, the
  export answers with status 200 and the blocks of all tasks of the collection, in the
  order of the collection, joined by a line feed; the block of a task is its six labelled
  fields ID, Title, Description, Deadline, Priority and Status in that order, each followed
  by a line feed; and when moreover no field contains a line feed and the collection is
  not empty, the lines of the export are, task after task, the six lines of the task
  followed by an empty line. When a field of a task cannot be converted to a string,
  the export answers with status 500.
\<close>

theorem export_layout:
  "((\<forall>t\<in>set (tasks r). task_printable rt t) \<longrightarrow>
      exportTasks rt r =
        Response 200 (TextBody (join [newline]
          (map (\<lambda>t. concat (map (\<lambda>l. l @ [newline]) (export_fields rt t))) (tasks r))))
      \<and> (\<forall>t\<in>set (tasks r). length (export_fields rt t) = 6
            \<and> export_block rt t = Inr (concat (map (\<lambda>l. l @ [newline]) (export_fields rt t))))
      \<and> ((\<forall>t\<in>set (tasks r). \<forall>l\<in>set (export_fields rt t). newline \<notin> set l) \<and> tasks r \<noteq> [] \<longrightarrow>
           (\<exists>text. export_text rt r = Inr text
              \<and> split_on newline text = concat (map (\<lambda>t. export_fields rt t @ [[]]) (tasks r)))))
   \<and> ((\<exists>t\<in>set (tasks r). \<not> task_printable rt t) \<longrightarrow>
        exportTasks rt r = Response 500 (Message ''Server error''))"
proof (intro conjI impI)
  assume all: "\<forall>t\<in>set (tasks r). task_printable rt t"
  let ?block = "\<lambda>t. concat (map (\<lambda>l. l @ [newline]) (export_fields rt t))"
  from all have blocks: "\<forall>t\<in>set (tasks r). export_block rt t = Inr (?block t)"
    by (simp add: export_block_printable)
  then have "all_results (map (export_block rt) (tasks r)) = Inr (map ?block (tasks r))"
    by (rule all_results_values)
  then have rendered: "export_text rt r = Inr (join [newline] (map ?block (tasks r)))"
    by (simp add: export_text_def getTasks_no_query)
  then show "exportTasks rt r = Response 200 (TextBody (join [newline] (map ?block (tasks r))))"
    by (simp add: exportTasks_def)
  from blocks show "\<forall>t\<in>set (tasks r). length (export_fields rt t) = 6
            \<and> export_block rt t = Inr (?block t)"
    by (simp add: export_fields_def)
  assume lines: "(\<forall>t\<in>set (tasks r). \<forall>l\<in>set (export_fields rt t). newline \<notin> set l) \<and> tasks r \<noteq> []"
  then have "split_on newline
      (join [newline] (map (\<lambda>ls. concat (map (\<lambda>l. l @ [newline]) ls)) (map (export_fields rt) (tasks r))))
      = concat (map (\<lambda>ls. ls @ [[]]) (map (export_fields rt) (tasks r)))"
    by (intro split_on_blocks) simp_all
  then have "split_on newline (join [newline] (map ?block (tasks r)))
      = concat (map (\<lambda>t. export_fields rt t @ [[]]) (tasks r))"
    by (simp add: comp_def)
  with rendered show "\<exists>text. export_text rt r = Inr text
              \<and> split_on newline text = concat (map (\<lambda>t. export_fields rt t @ [[]]) (tasks r))"
    by blast
next
  assume "\<exists>t\<in>set (tasks r). \<not> task_printable rt t"
  then obtain t where "t \<in> set (tasks r)" "export_block rt t = Inl TypeError"
    using export_block_throws by blast
  then have "all_results (map (export_block rt) (tasks r)) = Inl TypeError"
    by (rule all_results_throws)
  then show "exportTasks rt r = Response 500 (Message ''Server error'')"
    by (simp add: exportTasks_def export_text_def getTasks_no_query)
qed

theorem export_layout_witness:
  "list_all (task_printable sample_runtime) (tasks repo_two)
   \<and> list_all (\<lambda>t. list_all (\<lambda>l. newline \<notin> set l) (export_fields sample_runtime t)) (tasks repo_two)
   \<and> tasks repo_two \<noteq> []
   \<and> (\<exists>text. export_text sample_runtime repo_two = Inr text
        \<and> split_on newline text =
           [''ID: 1'', ''Title: Buy milk'', ''Description: '', ''Deadline: 2025-01-02'',
            ''Priority: High'', ''Status: ToDo'', [],
            ''ID: 2'', ''Title: Write report'', ''Description: quarterly'', ''Deadline: null'',
            ''Priority: Medium'', ''Status: Completed'', []])"
proof -
  have p: "list_all (task_printable sample_runtime) (tasks repo_two)"
    by code_simp
  have h: "list_all (\<lambda>t. list_all (\<lambda>l. newline \<notin> set l) (export_fields sample_runtime t)) (tasks repo_two)"
    "tasks repo_two \<noteq> []"
    by code_simp+
  from p have p': "\<forall>t\<in>set (tasks repo_two). task_printable sample_runtime t"
    by (simp add: list_all_iff)
  from h have h': "(\<forall>t\<in>set (tasks repo_two). \<forall>l\<in>set (export_fields sample_runtime t). newline \<notin> set l)
      \<and> tasks repo_two \<noteq> []"
    by (simp add: list_all_iff)
  have e: "concat (map (\<lambda>t. export_fields sample_runtime t @ [[]]) (tasks repo_two)) =
       [''ID: 1'', ''Title: Buy milk'', ''Description: '', ''Deadline: 2025-01-02'',
        ''Priority: High'', ''Status: ToDo'', [],
        ''ID: 2'', ''Title: Write report'', ''Description: quarterly'', ''Deadline: null'',
        ''Priority: Medium'', ''Status: Completed'', []]"
    by code_simp
  from export_layout [of repo_two sample_runtime] p' h'
  have "\<exists>text. export_text sample_runtime repo_two = Inr text
      \<and> split_on newline text
          = concat (map (\<lambda>t. export_fields sample_runtime t @ [[]]) (tasks repo_two))"
    by blast
  with p h e show ?thesis
    by simp
qed

text \<open>
  Claim C9 as stated gives a block five lines: the export of a collection of one task has
  six lines before the empty line that ends the block. It also gives every collection an
  export: the export of the collection that holds the task with the title
  \<open>{"toString": 1}\<close> is answered with status 500.
\<close>

theorem export_block_has_six_lines:
  "map_sum id (split_on newline) (export_text sample_runtime repo_one) =
       Inr [''ID: 1'', ''Title: Buy milk'', ''Description: '', ''Deadline: 2025-01-02'',
            ''Priority: High'', ''Status: ToDo'', []]
   \<and> map_sum id (\<lambda>text. length (takeWhile (\<lambda>l. l \<noteq> []) (split_on newline text)))
        (export_text sample_runtime repo_one) \<noteq> Inr 5
   \<and> map title (tasks repo_unprintable) = [JObj [(''toString'', JNum 1)]]
   \<and> exportTasks sample_runtime repo_unprintable = Response 500 (Message ''Server error'')"
  by code_simp

section \<open>Sorting by deadline\<close>

lemma parseable_time_value:
  assumes "parseable rt x" and "has_deadline x"
  obtains n where "time_value rt (deadline x) = Inr (Some n)" and "timestamp rt x = Some n"
proof (cases "time_value rt (deadline x)")
  case (Inl e)
  with assms show ?thesis by (simp add: parseable_def)
next
  case (Inr v)
  with assms obtain n where "v = Some n"
    by (auto simp: parseable_def)
  with Inr that show ?thesis
    by (simp add: timestamp_def)
qed

lemma sort_compare_parseable:
  assumes "parseable rt x" and "parseable rt y"
  shows "sort_compare (compare_deadline rt) x y = Inr (deadline_cmp rt x y)"
proof (cases "has_deadline x \<and> has_deadline y")
  case False
  then show ?thesis
    by (auto simp: deadline_cmp_def sort_compare_def compare_deadline_def has_deadline_def)
next
  case True
  from assms(1) True obtain n where "time_value rt (deadline x) = Inr (Some n)"
    by (auto elim: parseable_time_value)
  moreover from assms(2) True obtain m where "time_value rt (deadline y) = Inr (Some m)"
    by (auto elim: parseable_time_value)
  ultimately show ?thesis
    by (simp add: deadline_cmp_def sort_compare_def compare_deadline_def)
qed

lemma deadline_cmp_negative:
  assumes "parseable rt x" and "parseable rt y"
  shows "deadline_cmp rt x y < 0 \<longleftrightarrow>
         has_deadline x \<and> (has_deadline y \<longrightarrow> the (timestamp rt x) < the (timestamp rt y))"
proof (cases "has_deadline x \<and> has_deadline y")
  case False
  then show ?thesis
    by (auto simp: deadline_cmp_def sort_compare_def compare_deadline_def has_deadline_def
        nan_to_zero_def)
next
  case True
  from assms(1) True obtain n where n: "time_value rt (deadline x) = Inr (Some n)" "timestamp rt x = Some n"
    by (auto elim: parseable_time_value)
  from assms(2) True obtain m where m: "time_value rt (deadline y) = Inr (Some m)" "timestamp rt y = Some m"
    by (auto elim: parseable_time_value)
  from True n m show ?thesis
    by (simp add: deadline_cmp_def sort_compare_def compare_deadline_def has_deadline_def
        nan_to_zero_def minus_num_def)
qed

lemma in_deadline_order_iff:
  assumes "parseable rt x" and "parseable rt y"
  shows "in_deadline_order rt x y \<longleftrightarrow>
         (has_deadline y \<longrightarrow> has_deadline x \<and> the (timestamp rt x) \<le> the (timestamp rt y))"
proof (cases "has_deadline x \<and> has_deadline y")
  case False
  then show ?thesis
    by (auto simp: in_deadline_order_def)
next
  case True
  from assms(1) True obtain n where n: "timestamp rt x = Some n"
    by (auto elim: parseable_time_value)
  from assms(2) True obtain m where m: "timestamp rt y = Some m"
    by (auto elim: parseable_time_value)
  from True n m show ?thesis
    by (simp add: in_deadline_order_def)
qed

lemma not_negative_order:
  assumes "parseable rt x" and "parseable rt y" and "\<not> deadline_cmp rt x y < 0"
  shows "in_deadline_order rt y x"
  using assms by (auto simp: deadline_cmp_negative in_deadline_order_iff)

lemma negative_order:
  assumes "parseable rt x" and "parseable rt y" and "deadline_cmp rt x y < 0"
  shows "in_deadline_order rt x y"
  using assms by (auto simp: deadline_cmp_negative in_deadline_order_iff)

lemma negative_upward:
  assumes "parseable rt p" and "parseable rt y" and "parseable rt z"
    and "deadline_cmp rt p y < 0" and "in_deadline_order rt y z"
  shows "deadline_cmp rt p z < 0"
  using assms by (auto simp: deadline_cmp_negative in_deadline_order_iff)

text \<open>
  The binary search, when no comparison throws and the comparisons of the pivot are
  negative from some index on: it returns that index.
\<close>

lemma bsearch_partition:
  assumes "left \<le> right" and "right \<le> length xs"
    and "\<forall>j<length xs. cmp p (xs ! j) = Inr (c (xs ! j))"
    and "\<forall>i j. i \<le> j \<and> j < length xs \<and> c (xs ! i) < 0 \<longrightarrow> c (xs ! j) < 0"
    and "\<forall>j<left. \<not> c (xs ! j) < 0"
    and "\<forall>j. right \<le> j \<and> j < length xs \<longrightarrow> c (xs ! j) < 0"
  shows "\<exists>k. bsearch cmp p xs left right = Inr k \<and> k \<le> length xs
       \<and> (\<forall>j<k. \<not> c (xs ! j) < 0)
       \<and> (\<forall>j. k \<le> j \<and> j < length xs \<longrightarrow> c (xs ! j) < (0::int))"
  using assms(1,2,5,6)
proof (induction "right - left" arbitrary: left right rule: less_induct)
  case less
  note total = assms(3) and mono = assms(4)
  show ?case
  proof (cases "left < right")
    case False
    then have "bsearch cmp p xs left right = Inr left"
      by (subst bsearch.simps) simp
    moreover from False less.prems(1) have "left = right"
      by simp
    ultimately show ?thesis
      using less.prems by auto
  next
    case True
    define mid where "mid = left + (right - left) div 2"
    from True less.prems(2) have mid: "left \<le> mid" "mid < right" "mid < length xs"
      by (auto simp: mid_def)
    with total have at_mid: "cmp p (xs ! mid) = Inr (c (xs ! mid))"
      by simp
    show ?thesis
    proof (cases "c (xs ! mid) < 0")
      case neg: True
      have above: "\<forall>j. mid \<le> j \<and> j < length xs \<longrightarrow> c (xs ! j) < 0"
        using mono neg by blast
      from mid have smaller: "mid - left < right - left" and le: "mid \<le> length xs"
        by simp_all
      from less.hyps [OF smaller mid(1) le less.prems(3) above]
      have "\<exists>k. bsearch cmp p xs left mid = Inr k \<and> k \<le> length xs
          \<and> (\<forall>j<k. \<not> c (xs ! j) < 0) \<and> (\<forall>j. k \<le> j \<and> j < length xs \<longrightarrow> c (xs ! j) < 0)" .
      moreover have "bsearch cmp p xs left right = bsearch cmp p xs left mid"
        using True neg at_mid by (subst bsearch.simps) (simp add: Let_def mid_def)
      ultimately show ?thesis by simp
    next
      case nonneg: False
      have below: "\<forall>j<Suc mid. \<not> c (xs ! j) < 0"
      proof (intro allI impI)
        fix j assume "j < Suc mid"
        then have "j \<le> mid" by simp
        with mono mid(3) nonneg show "\<not> c (xs ! j) < 0" by blast
      qed
      from mid have smaller: "right - Suc mid < right - left" and le: "Suc mid \<le> right"
        by simp_all
      from less.hyps [OF smaller le less.prems(2) below less.prems(4)]
      have "\<exists>k. bsearch cmp p xs (Suc mid) right = Inr k \<and> k \<le> length xs
          \<and> (\<forall>j<k. \<not> c (xs ! j) < 0) \<and> (\<forall>j. k \<le> j \<and> j < length xs \<longrightarrow> c (xs ! j) < 0)" .
      moreover have "bsearch cmp p xs left right = bsearch cmp p xs (Suc mid) right"
        using True nonneg at_mid by (subst bsearch.simps) (simp add: Let_def mid_def)
      ultimately show ?thesis by simp
    qed
  qed
qed

lemma binary_insert_sorted:
  assumes sorted: "sorted_wrt (in_deadline_order rt) xs"
    and valid: "\<forall>x\<in>set xs. parseable rt x" and p: "parseable rt p"
  shows "\<exists>ys. binary_insert (sort_compare (compare_deadline rt)) xs p = Inr ys
       \<and> sorted_wrt (in_deadline_order rt) ys \<and> mset ys = add_mset p (mset xs)"
proof -
  let ?R = "in_deadline_order rt"
  let ?cmp = "sort_compare (compare_deadline rt)"
  let ?c = "deadline_cmp rt p"
  have nth_valid: "parseable rt (xs ! j)" if "j < length xs" for j
    using valid that by simp
  have total: "\<forall>j<length xs. ?cmp p (xs ! j) = Inr (?c (xs ! j))"
    using p nth_valid by (simp add: sort_compare_parseable)
  have mono: "\<forall>i j. i \<le> j \<and> j < length xs \<and> ?c (xs ! i) < 0 \<longrightarrow> ?c (xs ! j) < 0"
  proof (intro allI impI)
    fix i j assume a: "i \<le> j \<and> j < length xs \<and> ?c (xs ! i) < 0"
    show "?c (xs ! j) < 0"
    proof (cases "i = j")
      case True
      with a show ?thesis by simp
    next
      case False
      with a have "i < j" "j < length xs" by simp_all
      with sorted have "?R (xs ! i) (xs ! j)"
        by (simp add: sorted_wrt_nth_less)
      with a p nth_valid [of i] nth_valid [of j] show ?thesis
        by (intro negative_upward [of rt p "xs ! i" "xs ! j"]) simp_all
    qed
  qed
  have none_below: "\<forall>j<0::nat. \<not> ?c (xs ! j) < 0"
    and all_above: "\<forall>j. length xs \<le> j \<and> j < length xs \<longrightarrow> ?c (xs ! j) < 0"
    by simp_all
  from bsearch_partition [where left = 0 and right = "length xs" and xs = xs and cmp = ?cmp
      and p = p and c = ?c, OF le0 order_refl total mono none_below all_above]
  obtain k where found: "bsearch ?cmp p xs 0 (length xs) = Inr k" and k: "k \<le> length xs"
    and before: "\<forall>j<k. \<not> ?c (xs ! j) < 0"
    and after: "\<forall>j. k \<le> j \<and> j < length xs \<longrightarrow> ?c (xs ! j) < 0"
    by blast
  have left: "?R x p" if "x \<in> set (take k xs)" for x
  proof -
    from that k obtain j where j: "j < k" "x = xs ! j"
      by (auto simp: in_set_conv_nth)
    with k before p nth_valid [of j] show ?thesis
      by (intro not_negative_order) simp_all
  qed
  have right: "?R p y" if "y \<in> set (drop k xs)" for y
  proof -
    from that obtain i where "i < length xs - k" "y = xs ! (k + i)"
      by (auto simp: in_set_conv_nth)
    then have j: "k \<le> k + i" "k + i < length xs" "y = xs ! (k + i)"
      by simp_all
    define j where "j = k + i"
    note j = j [folded j_def]
    with after p nth_valid [of j] show ?thesis
      by (intro negative_order) simp_all
  qed
  from sorted have "sorted_wrt ?R (take k xs @ drop k xs)"
    by simp
  then have parts: "sorted_wrt ?R (take k xs)" "sorted_wrt ?R (drop k xs)"
    "\<forall>x\<in>set (take k xs). \<forall>y\<in>set (drop k xs). ?R x y"
    unfolding sorted_wrt_append by simp_all
  with left right have "sorted_wrt ?R (take k xs @ p # drop k xs)"
    by (simp add: sorted_wrt_append)
  moreover have "mset (take k xs) + mset (drop k xs) = mset xs"
    by (simp flip: mset_append)
  then have "mset (take k xs @ p # drop k xs) = add_mset p (mset xs)"
    by simp
  moreover have "binary_insert ?cmp xs p = Inr (take k xs @ p # drop k xs)"
    by (simp add: binary_insert_def found)
  ultimately show ?thesis
    by blast
qed

lemma insert_all_sorted:
  assumes "sorted_wrt (in_deadline_order rt) acc"
    and "\<forall>x\<in>set acc. parseable rt x" and "\<forall>x\<in>set xs. parseable rt x"
  shows "\<exists>ys. insert_all (sort_compare (compare_deadline rt)) acc xs = Inr ys
       \<and> sorted_wrt (in_deadline_order rt) ys \<and> mset ys = mset acc + mset xs"
  using assms
proof (induction xs arbitrary: acc)
  case Nil
  then show ?case by simp
next
  case (Cons x xs)
  from Cons.prems obtain acc' where acc':
    "binary_insert (sort_compare (compare_deadline rt)) acc x = Inr acc'"
    "sorted_wrt (in_deadline_order rt) acc'" "mset acc' = add_mset x (mset acc)"
    using binary_insert_sorted [of rt acc x] by auto
  from acc'(3) have "set acc' = insert x (set acc)"
    by (metis set_mset_add_mset_insert set_mset_mset)
  with Cons.prems have "\<forall>y\<in>set acc'. parseable rt y"
    by simp
  moreover from Cons.prems have "\<forall>y\<in>set xs. parseable rt y"
    by simp
  ultimately obtain ys where
    "insert_all (sort_compare (compare_deadline rt)) acc' xs = Inr ys"
    "sorted_wrt (in_deadline_order rt) ys" "mset ys = mset acc' + mset xs"
    using Cons.IH [OF acc'(2)] by blast
  with acc' show ?case
    by simp
qed

text \<open>
  The order does not hang on the sorting procedure: among parseable tasks, every
  arrangement in which no task compares negative with an earlier one is in deadline order.
\<close>

lemma comparator_sorted_in_deadline_order:
  assumes "\<forall>t\<in>set ys. parseable rt t"
    and "sorted_wrt (\<lambda>a b. \<not> deadline_cmp rt b a < 0) ys"
  shows "sorted_wrt (in_deadline_order rt) ys"
proof -
  have "in_deadline_order rt a b"
    if "a \<in> set ys" and "b \<in> set ys" and "\<not> deadline_cmp rt b a < 0" for a b
    using that assms(1) by (intro not_negative_order) simp_all
  with assms(2) show ?thesis
    by (rule sorted_wrt_mono_rel [rotated])
qed

lemma set_apply_filter: "set (apply_filter f ts) \<subseteq> set ts"
  by (auto simp: apply_filter_def split: option.splits)

text \<open>
  Claim C7, amended. When every task of the collection is parseable, the sort by deadline
  does not throw, the list it returns is a permutation of the filtered collection, and
  the list is in deadline order: every task without a deadline comes after every task
  with one, and the tasks with a deadline are in non-decreasing order of their time
  values.
\<close>

theorem getTasks_by_deadline_sorted:
  assumes "\<forall>t\<in>set (tasks r). parseable rt t"
  shows "\<exists>result. getTasks rt \<lparr> sortBy = Some ''deadline'', filter_by = f \<rparr> r = Inr result
       \<and> mset result = mset (apply_filter f (tasks r))
       \<and> sorted_wrt (in_deadline_order rt) result"
proof -
  from assms set_apply_filter [of f "tasks r"]
  have "\<forall>t\<in>set (apply_filter f (tasks r)). parseable rt t"
    by blast
  then obtain ys where
    "insert_all (sort_compare (compare_deadline rt)) [] (apply_filter f (tasks r)) = Inr ys"
    "sorted_wrt (in_deadline_order rt) ys" "mset ys = mset [] + mset (apply_filter f (tasks r))"
    using insert_all_sorted [of rt "[]" "apply_filter f (tasks r)"] by auto
  then show ?thesis
    by (simp add: getTasks_def apply_sort_def Array_sort_def)
qed

theorem getTasks_by_deadline_sorted_witness:
  "list_all (parseable sample_runtime) (tasks repo_dated)
   \<and> tasks repo_dated = [task_report, task_milk, task_call]
   \<and> getTasks sample_runtime by_deadline repo_dated = Inr [task_call, task_milk, task_report]
   \<and> sorted_wrt (in_deadline_order sample_runtime) [task_call, task_milk, task_report]"
proof -
  have h: "list_all (parseable sample_runtime) (tasks repo_dated)"
    by code_simp
  then have h': "\<forall>t\<in>set (tasks repo_dated). parseable sample_runtime t"
    by (simp add: list_all_iff)
  have e: "tasks repo_dated = [task_report, task_milk, task_call]"
    "getTasks sample_runtime by_deadline repo_dated = Inr [task_call, task_milk, task_report]"
    by code_simp+
  from getTasks_by_deadline_sorted [OF h', of None] e(2)
  have "sorted_wrt (in_deadline_order sample_runtime) [task_call, task_milk, task_report]"
    by (auto simp: by_deadline_def)
  with h e show ?thesis
    by simp
qed

text \<open>
  Claim C7 as stated fails for a deadline that is not a date. Between a task due on
  2 January and a task due on 1 January stands one whose deadline is the word
  \<open>tomorrow\<close>. Every comparison with it yields NaN, the sort leaves the three
  where they are, and the later date comes before the earlier one.
\<close>

theorem unparseable_deadline_breaks_order:
  "getTasks sample_runtime by_deadline repo_unparseable = Inr [task_milk, task_plan, task_call]
   \<and> map (timestamp sample_runtime) [task_milk, task_plan, task_call]
       = [Some 1735776000000, None, Some 1735689600000]
   \<and> \<not> sorted_wrt (in_deadline_order sample_runtime) [task_milk, task_plan, task_call]"
  by code_simp

end
